theory Spec2Isabelle
  imports Complex_Main "HOL-Library.Word" "HOL-Library.Char_ord" "HOL-Library.List_Lexorder"
    "HOL-Library.Sublist"
begin

section \<open>Python values shared by the containers\<close>

text \<open>
  The exceptions the modelled code raises, as values.  An \<open>AssertionError\<close> carries the
  text of the asserted condition (what the traceback shows), a \<open>KeyError\<close> the missing key.
\<close>

datatype error =
    IndexError
  | TypeError
  | ZeroDivisionError
  | ValueError
  | KeyError string
  | AssertionError string
  | RuntimeError string
  | NotImplementedError string

text \<open>
  A numpy array: its shape and its elements in row-major order (what \<open>ravel\<close> returns).
\<close>

record 'a ndarray =
  shape :: "nat list"
  data :: "'a list"

text \<open>Python's normalisation of one bound of a slice over a dimension of length \<open>n\<close>.\<close>

definition slice_index :: "int \<Rightarrow> nat \<Rightarrow> nat" where
  "slice_index i n = (if i < 0 then nat (max (i + int n) 0) else min (nat i) n)"

text \<open>
  \<open>input[start:end, :]\<close>: a slice of the first axis.  The second index makes numpy raise
  \<open>IndexError\<close> on an array of fewer than two dimensions.
\<close>

definition slice_rows :: "'a ndarray \<Rightarrow> int \<Rightarrow> int \<Rightarrow> error + 'a ndarray" where
  "slice_rows input start stop =
     (case shape input of
        n # d # ds \<Rightarrow>
          (let lo = slice_index start n;
               hi = slice_index stop n;
               m = hi - lo;
               r = prod_list (d # ds)
           in Inr \<lparr>shape = m # d # ds, data = take (m * r) (drop (lo * r) (data input))\<rparr>)
      | _ \<Rightarrow> Inl IndexError)"

text \<open>\<open>tuple([input[start:end, :] for input in inputs])\<close>: the first failing slice raises.\<close>

fun slice_all :: "'a ndarray list \<Rightarrow> int \<Rightarrow> int \<Rightarrow> error + 'a ndarray list" where
  "slice_all [] start stop = Inr []"
| "slice_all (input # inputs) start stop =
     (case slice_rows input start stop of
        Inl e \<Rightarrow> Inl e
      | Inr b \<Rightarrow>
          (case slice_all inputs start stop of
             Inl e \<Rightarrow> Inl e
           | Inr bs \<Rightarrow> Inr (b # bs)))"

text \<open>\<open>np.array(predictions).ravel()\<close> of a Python list of scalars.\<close>

definition np_array_ravel :: "'a list \<Rightarrow> 'a ndarray" where
  "np_array_ravel predictions = \<lparr>shape = [length predictions], data = predictions\<rparr>"

text \<open>
  \<open>a.reshape(total_size, -1)\<close>: numpy cannot infer the second dimension when the first
  is 0 or does not divide the number of elements, and raises \<open>ValueError\<close>.
\<close>

definition reshape_rows :: "nat \<Rightarrow> 'a ndarray \<Rightarrow> error + 'a ndarray" where
  "reshape_rows total_size a =
     (let size = length (data a)
      in if total_size = 0 \<or> size mod total_size \<noteq> 0 then Inl ValueError
         else Inr \<lparr>shape = [total_size, size div total_size], data = data a\<rparr>)"

section \<open>The batch execution engine of \<open>SklearnContainer\<close>\<close>

text \<open>
  The fields of \<open>SklearnContainer\<close> that the execution layer reads or writes.  The model
  itself is opaque and lives in the scoring function.
\<close>

record 'v container =
  n_threads :: "int option"
  batch_size :: "int option"
  extra_config :: "string \<rightharpoonup> 'v"
  last_iteration :: bool

text \<open>
  A scoring function is a bound method: it sees the container (in particular
  \<open>_last_iteration\<close>) and the positional arrays, and returns an array or raises.
\<close>

type_synonym ('v, 'a, 'b) scoring = "'v container \<Rightarrow> 'a ndarray list \<Rightarrow> error + 'b ndarray"

text \<open>
  Every run returns the container as the call left it, the invocations of the scoring
  function in order (the value of \<open>_last_iteration\<close> it saw and its arguments), and the
  result or the exception.
\<close>

type_synonym ('v, 'a, 'b) outcome =
  "'v container \<times> (bool \<times> 'a ndarray list) list \<times> (error + 'b)"

definition state_of :: "('v, 'a, 'b) outcome \<Rightarrow> 'v container" where
  "state_of r = fst r"

definition calls_of :: "('v, 'a, 'b) outcome \<Rightarrow> (bool \<times> 'a ndarray list) list" where
  "calls_of r = fst (snd r)"

definition result_of :: "('v, 'a, 'b) outcome \<Rightarrow> error + 'b" where
  "result_of r = snd (snd r)"

text \<open>
  The loop \<open>for i in range(0, iterations)\<close> of \<open>_run_batch_inference\<close>, over the indices
  still to run, with the accumulated \<open>predictions\<close>.
\<close>

fun batch_loop ::
  "('v, 'a, 'b) scoring \<Rightarrow> int \<Rightarrow> int \<Rightarrow> int \<Rightarrow> 'a ndarray list \<Rightarrow> int list \<Rightarrow>
   'v container \<Rightarrow> (bool \<times> 'a ndarray list) list \<Rightarrow> 'b list \<Rightarrow> ('v, 'a, 'b list) outcome" where
  "batch_loop function bs total_size iterations inputs [] c calls predictions =
     (c, calls, Inr predictions)"
| "batch_loop function bs total_size iterations inputs (i # rest) c calls predictions =
     (let start = i * bs;
          stop = min (start + bs) total_size
      in case slice_all inputs start stop of
           Inl e \<Rightarrow> (c, calls, Inl e)
         | Inr batch \<Rightarrow>
             (let c' = c\<lparr>last_iteration := (i = iterations - 1)\<rparr>;
                  calls' = calls @ [(last_iteration c', batch)]
              in case function c' batch of
                   Inl e \<Rightarrow> (c', calls', Inl e)
                 | Inr out \<Rightarrow>
                     batch_loop function bs total_size iterations inputs rest c' calls'
                       (predictions @ data out)))"

text \<open>
  \<open>SklearnContainer._run_batch_inference\<close>.  \<open>inputs\<close> is always a tuple there; an empty
  tuple and a 0-dimensional first array raise \<open>IndexError\<close> at \<open>inputs[0].shape[0]\<close>, a
  missing batch size \<open>TypeError\<close> at the division, a batch size of 0
  \<open>ZeroDivisionError\<close>.
\<close>

definition SklearnContainer_run_batch_inference ::
  "'v container \<Rightarrow> ('v, 'a, 'b) scoring \<Rightarrow> 'a ndarray list \<Rightarrow> bool \<Rightarrow>
   ('v, 'a, 'b ndarray) outcome" where
  "SklearnContainer_run_batch_inference c function inputs reshape =
     (case inputs of
        [] \<Rightarrow> (c, [], Inl IndexError)
      | x # _ \<Rightarrow>
        (case shape x of
           [] \<Rightarrow> (c, [], Inl IndexError)
         | n # _ \<Rightarrow>
           (case batch_size c of
              None \<Rightarrow> (c, [], Inl TypeError)
            | Some bs \<Rightarrow>
               (let total_size = int n in
                if total_size = bs then (c, [(last_iteration c, inputs)], function c inputs)
                else if bs = 0 then (c, [], Inl ZeroDivisionError)
                else
                  (let iterations =
                         max 1 (total_size div bs + (if total_size mod bs > 0 then 1 else 0))
                   in case batch_loop function bs total_size iterations inputs
                             (map int [0..<nat iterations]) c [] [] of
                        (c', calls, Inl e) \<Rightarrow> (c', calls, Inl e)
                      | (c', calls, Inr predictions) \<Rightarrow>
                          (c', calls,
                           if reshape then reshape_rows n (np_array_ravel predictions)
                           else Inr (np_array_ravel predictions)))))))"

text \<open>
  The positional arguments of a prediction call: arrays, or one pandas \<open>DataFrame\<close>
  given by its columns.
\<close>

datatype 'a py_inputs = Arrays "'a ndarray list" | DataFrame "'a list list"

text \<open>\<open>df.to_numpy().reshape(-1, 1)\<close> of one column.\<close>

definition column_vector :: "'a list \<Rightarrow> 'a ndarray" where
  "column_vector col = \<lparr>shape = [length col, 1], data = col\<rparr>"

text \<open>
  The first block of \<open>SklearnContainer._run\<close>: a \<open>DataFrame\<close> is split into its columns.
  \<open>pandas\<close> says whether pandas is installed (whether the module's \<open>DataFrame\<close> is not
  \<open>None\<close>); only then is \<open>inputs[0]\<close> read, which raises \<open>IndexError\<close> on a call without
  arguments.  A \<open>DataFrame\<close> exists only with pandas.
\<close>

definition split_dataframe :: "bool \<Rightarrow> 'a py_inputs \<Rightarrow> error + 'a ndarray list" where
  "split_dataframe pandas inputs =
     (case inputs of
        DataFrame cols \<Rightarrow> Inr (map column_vector cols)
      | Arrays [] \<Rightarrow> if pandas then Inl IndexError else Inr []
      | Arrays xs \<Rightarrow> Inr xs)"

text \<open>\<open>SklearnContainer._run\<close>.\<close>

definition SklearnContainer_run ::
  "bool \<Rightarrow> 'v container \<Rightarrow> ('v, 'a, 'b) scoring \<Rightarrow> 'a py_inputs \<Rightarrow> bool \<Rightarrow>
   ('v, 'a, 'b ndarray) outcome" where
  "SklearnContainer_run pandas c function inputs reshape =
     (case split_dataframe pandas inputs of
        Inl e \<Rightarrow> (c, [], Inl e)
      | Inr xs \<Rightarrow>
          (case batch_size c of
             None \<Rightarrow> (c, [(last_iteration c, xs)], function c xs)
           | Some _ \<Rightarrow> SklearnContainer_run_batch_inference c function xs reshape))"

section \<open>Partitions, as the specification describes them\<close>

text \<open>
  The rows \<open>[lo, hi)\<close> of an array, and the arguments of the \<open>i\<close>-th partition of
  \<open>N\<close> rows in batches of \<open>B\<close>: the rows \<open>[i * B, min ((i + 1) * B) N)\<close> of every input.
\<close>

definition rows_between :: "'a ndarray \<Rightarrow> nat \<Rightarrow> nat \<Rightarrow> 'a ndarray" where
  "rows_between a lo hi =
     \<lparr>shape = (hi - lo) # tl (shape a),
      data = take ((hi - lo) * prod_list (tl (shape a)))
               (drop (lo * prod_list (tl (shape a))) (data a))\<rparr>"

definition partition_args :: "'a ndarray list \<Rightarrow> nat \<Rightarrow> nat \<Rightarrow> nat \<Rightarrow> 'a ndarray list" where
  "partition_args inputs B N i = map (\<lambda>a. rows_between a (i * B) (min ((i + 1) * B) N)) inputs"

text \<open>The number of partitions: \<open>max(1, ceil(N / B))\<close>.\<close>

definition partition_count :: "nat \<Rightarrow> nat \<Rightarrow> nat" where
  "partition_count N B = max 1 (nat \<lceil>real N / real B\<rceil>)"

text \<open>Every input has at least two dimensions and \<open>N\<close> rows.\<close>

definition row_count :: "nat \<Rightarrow> 'a ndarray list \<Rightarrow> bool" where
  "row_count N inputs = list_all (\<lambda>a. length (shape a) \<ge> 2 \<and> hd (shape a) = N) inputs"

text \<open>
  A scoring function that scores the rows of \<open>inputs\<close> independently, \<open>k\<close> values a row:
  on every row range, and whatever the container's flag, it returns the part of its
  output on all \<open>N\<close> rows that belongs to the range.
\<close>

definition scores_rows ::
  "('v, 'a, 'b) scoring \<Rightarrow> 'v container \<Rightarrow> 'a ndarray list \<Rightarrow> nat \<Rightarrow> nat \<Rightarrow> bool" where
  "scores_rows function c inputs N k =
     (\<forall>flag lo hi. lo \<le> hi \<and> hi \<le> N \<longrightarrow>
        (\<exists>out full.
           function (c\<lparr>last_iteration := flag\<rparr>) (map (\<lambda>a. rows_between a lo hi) inputs)
             = Inr out \<and>
           function c inputs = Inr full \<and>
           length (data full) = N * k \<and>
           data out = take ((hi - lo) * k) (drop (lo * k) (data full))))"

section \<open>Anomaly detection: \<open>SklearnContainerAnomalyDetection\<close>\<close>

text \<open>
  Modelled from the spec: the keys \<open>constants.IFOREST_THRESHOLD\<close> and \<open>constants.OFFSET\<close>
  of the extra configuration.  The module \<open>hummingbird.ml.operator_converters.constants\<close>
  is not among the sources; the specification names the keys "IFOREST_THRESHOLD" and
  "OFFSET".  Nothing below depends on the strings themselves.
\<close>

definition IFOREST_THRESHOLD :: string where
  "IFOREST_THRESHOLD = ''IFOREST_THRESHOLD''"

definition OFFSET :: string where
  "OFFSET = ''OFFSET''"

text \<open>\<open>scores + t\<close> for an array and a scalar: numpy adds the scalar to every element.\<close>

definition add_scalar :: "'b::plus ndarray \<Rightarrow> 'b \<Rightarrow> 'b ndarray" where
  "add_scalar scores t = scores\<lparr>data := map (\<lambda>s. s + t) (data scores)\<rparr>"

text \<open>
  \<open>decision_function\<close>; the abstract method \<open>_decision_function\<close> of the backend is the
  scoring function.
\<close>

definition decision_function ::
  "bool \<Rightarrow> 'b::plus container \<Rightarrow> ('b, 'a, 'b) scoring \<Rightarrow> 'a py_inputs \<Rightarrow>
   ('b, 'a, 'b ndarray) outcome" where
  "decision_function pandas c decision_function_impl inputs =
     (case SklearnContainer_run pandas c decision_function_impl inputs False of
        (c', calls, Inl e) \<Rightarrow> (c', calls, Inl e)
      | (c', calls, Inr scores) \<Rightarrow>
          (c', calls,
           Inr (case extra_config c' IFOREST_THRESHOLD of
                  None \<Rightarrow> scores
                | Some t \<Rightarrow> add_scalar scores t)))"

text \<open>
  \<open>score_samples\<close>: Python evaluates the call of \<open>decision_function\<close> first, then
  \<open>self._extra_config[constants.OFFSET]\<close>, which raises \<open>KeyError\<close> on a missing key.
\<close>

definition score_samples ::
  "bool \<Rightarrow> 'b::plus container \<Rightarrow> ('b, 'a, 'b) scoring \<Rightarrow> 'a py_inputs \<Rightarrow>
   ('b, 'a, 'b ndarray) outcome" where
  "score_samples pandas c decision_function_impl inputs =
     (case decision_function pandas c decision_function_impl inputs of
        (c', calls, Inl e) \<Rightarrow> (c', calls, Inl e)
      | (c', calls, Inr scores) \<Rightarrow>
          (case extra_config c' OFFSET of
             None \<Rightarrow> (c', calls, Inl (KeyError OFFSET))
           | Some off \<Rightarrow> (c', calls, Inr (add_scalar scores off))))"

section \<open>The ONNX containers\<close>

text \<open>
  What an \<open>ONNXSklearnContainer\<close> holds besides the base fields: the names the session
  declares, the session's \<open>run\<close> (opaque: it maps the requested output names and the
  named inputs to a list of arrays, or raises), and the two flags of
  \<open>SklearnContainerRegression\<close>.
\<close>

record ('a, 'b) onnx_container =
  input_names :: "string list"
  output_names :: "string list"
  session_run :: "string list \<Rightarrow> (string \<rightharpoonup> 'a ndarray) \<Rightarrow> error + 'b ndarray list"
  is_regression :: bool
  is_anomaly_detection :: bool

text \<open>\<open>a[i]\<close> for an index within the first axis.\<close>

definition subarray :: "'a ndarray \<Rightarrow> nat \<Rightarrow> 'a ndarray" where
  "subarray a i =
     (let r = prod_list (tl (shape a))
      in \<lparr>shape = tl (shape a), data = take r (drop (i * r) (data a))\<rparr>)"

text \<open>
  \<open>_get_named_inputs\<close>.  With fewer positional inputs than declared names, the first one
  is taken as the packed sequence of inputs: \<open>inputs[0]\<close> raises \<open>IndexError\<close> on an empty
  tuple, \<open>len\<close> raises \<open>TypeError\<close> on a 0-dimensional array, and the sequence is read
  along the first axis.  A later assignment to the same name overwrites the earlier.
\<close>

definition get_named_inputs ::
  "string list \<Rightarrow> 'a ndarray list \<Rightarrow> error + (string \<rightharpoonup> 'a ndarray)" where
  "get_named_inputs names inputs =
     (case (if length inputs < length names then
              (case inputs of
                 [] \<Rightarrow> Inl IndexError
               | x # _ \<Rightarrow>
                   (case shape x of
                      [] \<Rightarrow> Inl TypeError
                    | n # _ \<Rightarrow> Inr (map (subarray x) [0..<n])))
            else Inr inputs) of
        Inl e \<Rightarrow> Inl e
      | Inr xs \<Rightarrow>
          if length xs = length names
          then Inr (fold (\<lambda>(k, v) m. m(k \<mapsto> v)) (zip names xs) Map.empty)
          else Inl (AssertionError ''len(inputs) == len(self._input_names)''))"

text \<open>
  \<open>np.array(outs)\<close> of the list a session returns: the arrays stacked along a new first
  axis.  (A session returns one array per requested name; lists of arrays of unequal
  shapes are outside this model.)
\<close>

definition np_array_stack :: "'b ndarray list \<Rightarrow> 'b ndarray" where
  "np_array_stack outs =
     (case outs of
        [] \<Rightarrow> \<lparr>shape = [0], data = []\<rparr>
      | out # _ \<Rightarrow> \<lparr>shape = length outs # shape out, data = concat (map data outs)\<rparr>)"

text \<open>\<open>a[0]\<close> on an array, \<open>outs[0]\<close> on a list, \<open>a.ravel()\<close> and \<open>a.flatten()\<close>.\<close>

definition first_subarray :: "'b ndarray \<Rightarrow> error + 'b ndarray" where
  "first_subarray a =
     (case shape a of
        [] \<Rightarrow> Inl IndexError
      | n # _ \<Rightarrow> if n = 0 then Inl IndexError else Inr (subarray a 0))"

definition first_output :: "'b ndarray list \<Rightarrow> error + 'b ndarray" where
  "first_output outs = (case outs of [] \<Rightarrow> Inl IndexError | out # _ \<Rightarrow> Inr out)"

definition ravel :: "'b ndarray \<Rightarrow> 'b ndarray" where
  "ravel a = \<lparr>shape = [length (data a)], data = data a\<rparr>"

text \<open>The text of the two assertions on the number of declared outputs.\<close>

definition one_output :: string where
  "one_output = ''len(self._output_names) == 1''"

definition two_outputs :: string where
  "two_outputs = ''len(self._output_names) == 2''"

text \<open>\<open>ONNXSklearnContainerTransformer._transform\<close>: the assertion comes first.\<close>

definition ONNX_transform :: "('a, 'b) onnx_container \<Rightarrow> 'a ndarray list \<Rightarrow> error + 'b ndarray" where
  "ONNX_transform self inputs =
     (if length (output_names self) \<noteq> 1 then Inl (AssertionError one_output)
      else case get_named_inputs (input_names self) inputs of
             Inl e \<Rightarrow> Inl e
           | Inr named_inputs \<Rightarrow>
               (case session_run self (output_names self) named_inputs of
                  Inl e \<Rightarrow> Inl e
                | Inr outs \<Rightarrow> Inr (np_array_stack outs)))"

text \<open>
  \<open>ONNXSklearnContainerRegression._predict\<close>, inherited by the classification and
  anomaly detection containers: the inputs are named first, the assertion follows.
\<close>

definition ONNX_predict :: "('a, 'b) onnx_container \<Rightarrow> 'a ndarray list \<Rightarrow> error + 'b ndarray" where
  "ONNX_predict self inputs =
     (case get_named_inputs (input_names self) inputs of
        Inl e \<Rightarrow> Inl e
      | Inr named_inputs \<Rightarrow>
          if is_regression self then
            (if length (output_names self) \<noteq> 1 then Inl (AssertionError one_output)
             else case session_run self (output_names self) named_inputs of
                    Inl e \<Rightarrow> Inl e
                  | Inr outs \<Rightarrow> Inr (np_array_stack outs))
          else if is_anomaly_detection self then
            (if length (output_names self) \<noteq> 2 then Inl (AssertionError two_outputs)
             else case session_run self [output_names self ! 0] named_inputs of
                    Inl e \<Rightarrow> Inl e
                  | Inr outs \<Rightarrow>
                      (case first_subarray (np_array_stack outs) of
                         Inl e \<Rightarrow> Inl e
                       | Inr out \<Rightarrow> Inr (ravel out)))
          else
            (if length (output_names self) \<noteq> 2 then Inl (AssertionError two_outputs)
             else case session_run self [output_names self ! 0] named_inputs of
                    Inl e \<Rightarrow> Inl e
                  | Inr outs \<Rightarrow> first_subarray (np_array_stack outs)))"

text \<open>\<open>ONNXSklearnContainerClassification._predict_proba\<close>.\<close>

definition ONNX_predict_proba ::
  "('a, 'b) onnx_container \<Rightarrow> 'a ndarray list \<Rightarrow> error + 'b ndarray" where
  "ONNX_predict_proba self inputs =
     (if length (output_names self) \<noteq> 2 then Inl (AssertionError two_outputs)
      else case get_named_inputs (input_names self) inputs of
             Inl e \<Rightarrow> Inl e
           | Inr named_inputs \<Rightarrow>
               (case session_run self [output_names self ! 1] named_inputs of
                  Inl e \<Rightarrow> Inl e
                | Inr outs \<Rightarrow> first_output outs))"

text \<open>\<open>ONNXSklearnContainerAnomalyDetection._decision_function\<close>.\<close>

definition ONNX_decision_function ::
  "('a, 'b) onnx_container \<Rightarrow> 'a ndarray list \<Rightarrow> error + 'b ndarray" where
  "ONNX_decision_function self inputs =
     (if length (output_names self) \<noteq> 2 then Inl (AssertionError two_outputs)
      else case get_named_inputs (input_names self) inputs of
             Inl e \<Rightarrow> Inl e
           | Inr named_inputs \<Rightarrow>
               (case session_run self [output_names self ! 1] named_inputs of
                  Inl e \<Rightarrow> Inl e
                | Inr outs \<Rightarrow>
                    (case first_output outs of
                       Inl e \<Rightarrow> Inl e
                     | Inr out \<Rightarrow> Inr (ravel out))))"

text \<open>
  The same primitives with the assertion on the output count left out: what runs once
  the assertion has passed.
\<close>

definition named_then ::
  "('a, 'b) onnx_container \<Rightarrow> 'a ndarray list \<Rightarrow> string list \<Rightarrow>
   ('b ndarray list \<Rightarrow> error + 'b ndarray) \<Rightarrow> error + 'b ndarray" where
  "named_then self inputs requested post =
     (case get_named_inputs (input_names self) inputs of
        Inl e \<Rightarrow> Inl e
      | Inr named_inputs \<Rightarrow>
          (case session_run self requested named_inputs of
             Inl e \<Rightarrow> Inl e
           | Inr outs \<Rightarrow> post outs))"

definition then_ravel :: "error + 'b ndarray \<Rightarrow> error + 'b ndarray" where
  "then_ravel r = (case r of Inl e \<Rightarrow> Inl e | Inr out \<Rightarrow> Inr (ravel out))"

section \<open>The converter of k-nearest-neighbour models\<close>

text \<open>
  A class label after \<open>classes_.tolist()\<close>, by its Python type: the three integer types
  the converter accepts, and any other value (given by its \<open>repr\<close>).
\<close>

datatype class_label = PyInt int | NpInt32 int | NpInt64 int | OtherLabel string

fun is_integer_label :: "class_label \<Rightarrow> bool" where
  "is_integer_label (PyInt _) = True"
| "is_integer_label (NpInt32 _) = True"
| "is_integer_label (NpInt64 _) = True"
| "is_integer_label (OtherLabel _) = False"

text \<open>
  The attributes of \<open>operator.raw_operator\<close> the converter reads.  The training data and
  labels are opaque.
\<close>

record ('x, 'y) kneighbors_estimator =
  classes_attr :: "class_label list"
  metric :: string
  metric_params :: "(string \<rightharpoonup> int) option"
  weights :: string
  fit_X :: 'x
  fit_y :: 'y
  n_neighbors :: nat

text \<open>
  \<open>KNeighborsModel\<close> is defined in a module that is not among the sources: the converted
  model is given by the arguments of its constructor, in the order of the call.
\<close>

datatype ('x, 'y) kneighbors_model =
  KNeighborsModel 'x 'y nat string "class_label list option" int int bool

text \<open>The two messages of \<open>NotImplementedError\<close> as Python parses them: the conditional
  expression binds weaker than \<open>+\<close>, so the regressor's message is the bare word.\<close>

definition metric_message :: "bool \<Rightarrow> string" where
  "metric_message is_classifier =
     (if is_classifier
      then ''Hummingbird currently supports only the metric type '' @ [CHR 0x27] @ ''minkowski''
           @ [CHR 0x27] @ '' and '' @ [CHR 0x27] @ ''euclidean'' @ [CHR 0x27]
           @ '' for KNeighbors'' @ ''Classifier''
      else ''Regressor'')"

definition weights_message :: "bool \<Rightarrow> string" where
  "weights_message is_classifier =
     (if is_classifier
      then ''Hummingbird currently supports only the weights type '' @ [CHR 0x27] @ ''uniform''
           @ [CHR 0x27] @ '' and '' @ [CHR 0x27] @ ''distance'' @ [CHR 0x27]
           @ '' for KNeighbors'' @ ''Classifier''
      else ''Regressor'')"

text \<open>
  \<open>_convert_kneighbors_model\<close>.  The key \<open>BATCH_SIZE\<close> comes from the constants module,
  which is not among the sources: it is a parameter.  \<open>config\<close> is the extra
  configuration; the \<open>device\<close> is not read.
\<close>

definition convert_kneighbors_model ::
  "string \<Rightarrow> ('x, 'y) kneighbors_estimator \<Rightarrow> string \<Rightarrow> (string \<rightharpoonup> int) \<Rightarrow> bool \<Rightarrow>
   error + ('x, 'y) kneighbors_model" where
  "convert_kneighbors_model BATCH_SIZE raw_operator device config is_classifier =
     (case config BATCH_SIZE of
        None \<Rightarrow>
          Inl (RuntimeError (''Hummingbird requires explicit specification of '' @ BATCH_SIZE
                 @ '' parameter when compiling KNeighborsClassifier''))
      | Some batch \<Rightarrow>
          if is_classifier \<and> \<not> list_all is_integer_label (classes_attr raw_operator)
          then Inl (RuntimeError ''Hummingbird supports only integer labels for class labels.'')
          else if metric raw_operator \<notin> set [''minkowski'', ''euclidean'']
          then Inl (NotImplementedError (metric_message is_classifier))
          else
            (let p = (case metric_params raw_operator of
                        None \<Rightarrow> 2
                      | Some params \<Rightarrow>
                          (case params ''p'' of
                             None \<Rightarrow> 2
                           | Some v \<Rightarrow> if metric raw_operator = ''minkowski'' then v else 2))
             in if weights raw_operator \<notin> set [''uniform'', ''distance'']
                then Inl (NotImplementedError (weights_message is_classifier))
                else Inr (KNeighborsModel (fit_X raw_operator) (fit_y raw_operator)
                            (n_neighbors raw_operator) (weights raw_operator)
                            (if is_classifier then Some (classes_attr raw_operator) else None)
                            p batch is_classifier)))"

text \<open>Whether a message names a value: the value occurs in it.\<close>

definition names_value :: "string \<Rightarrow> string \<Rightarrow> bool" where
  "names_value message v = sublist v message"

section \<open>The label encoders\<close>

subsection \<open>\<open>StringLabelEncoder\<close>\<close>

text \<open>
  Labels are byte strings (a \<open>char\<close> is a byte; \<open>len\<close> counts bytes, as it does for the
  ASCII labels numpy can store in an \<open>S\<close> array).  A stored tensor is given by its rows.
\<close>

text \<open>The loop \<open>while self.max_word_length % 4 != 0: self.max_word_length += 1\<close>.\<close>

function round_up_to_4 :: "nat \<Rightarrow> nat" where
  "round_up_to_4 m = (if m mod 4 \<noteq> 0 then round_up_to_4 (m + 1) else m)"
  by pat_completeness auto
termination
proof (relation "measure (\<lambda>m. 3 - (m + 3) mod 4)")
  show "wf (measure (\<lambda>m::nat. 3 - (m + 3) mod 4))"
    by (rule wf_measure)
next
  fix m :: nat
  assume "m mod 4 \<noteq> 0"
  then have "3 - (m + 1 + 3) mod 4 < 3 - (m + 3) mod 4"
    by arith
  then show "(m + 1, m) \<in> measure (\<lambda>m. 3 - (m + 3) mod 4)"
    by (simp only: in_measure)
qed

text \<open>
  One element of \<open>np.array(labels, dtype="|S" + str(L))\<close>: the bytes of the label, padded
  with NUL bytes to \<open>L\<close> bytes (numpy cuts a longer one).
\<close>

definition pad_bytes :: "nat \<Rightarrow> string \<Rightarrow> string" where
  "pad_bytes L s = take L s @ replicate (L - length s) (CHR 0x00)"

text \<open>\<open>view(np.int32)\<close>: every four bytes are one 32-bit integer, least significant first.\<close>

definition int32_of_bytes :: "char list \<Rightarrow> 32 word" where
  "int32_of_bytes bs = word_of_nat (foldr (\<lambda>b acc. of_char b + 256 * acc) bs 0)"

fun view_int32 :: "char list \<Rightarrow> 32 word list" where
  "view_int32 (a # b # c # d # rest) = int32_of_bytes [a, b, c, d] # view_int32 rest"
| "view_int32 _ = []"

definition encode_label :: "nat \<Rightarrow> string \<Rightarrow> 32 word list" where
  "encode_label L s = view_int32 (pad_bytes L s)"

record string_label_encoder =
  num_columns :: nat
  max_word_length :: nat
  condition_tensors :: "32 word list list"

text \<open>
  \<open>StringLabelEncoder.__init__\<close>.  \<open>max\<close> of an empty list raises \<open>ValueError\<close>.  When every
  label is empty the width is 0: numpy then stores one byte per label, which
  \<open>view(np.int32)\<close> refuses with \<open>ValueError\<close>.  \<open>sorted(set(classes))\<close> is the sorted list
  of the distinct labels.
\<close>

definition StringLabelEncoder_init :: "string list \<Rightarrow> error + string_label_encoder" where
  "StringLabelEncoder_init classes =
     (case classes of
        [] \<Rightarrow> Inl ValueError
      | cat # cats \<Rightarrow>
          (let width = round_up_to_4 (fold max (map length cats) (length cat))
           in if width = 0 then Inl ValueError
              else Inr \<lparr>num_columns = length classes,
                        max_word_length = width div 4,
                        condition_tensors =
                          map (encode_label width) (sorted_list_of_set (set classes))\<rparr>))"

text \<open>\<open>x.view(-1, 1, W)\<close> of a tensor given by its elements: the rows of \<open>W\<close> words.\<close>

definition view_rows :: "nat \<Rightarrow> 'w list \<Rightarrow> 'w list list" where
  "view_rows W x = map (\<lambda>i. take W (drop (i * W) x)) [0..<length x div W]"

text \<open>
  \<open>torch.prod(self.condition_tensors == x, dim=2).nonzero(as_tuple=True)[1]\<close>: for every
  query row in order, the indices of the vocabulary rows equal to it in every word.
\<close>

definition matching_columns :: "'w list list \<Rightarrow> 'w list list \<Rightarrow> nat list" where
  "matching_columns tensors rows =
     concat (map (\<lambda>q. filter (\<lambda>j. tensors ! j = q) [0..<length tensors]) rows)"

text \<open>
  The \<open>ValueError\<close> of \<open>forward\<close>; its message is formatted from \<open>x\<close> and from
  \<open>condition_tensors\<close>, which it carries here.
\<close>

datatype label_error =
    Unseen_labels "32 word list list" "32 word list list"
  | View_error

text \<open>
  \<open>StringLabelEncoder.forward\<close>.  \<open>view\<close> raises \<open>RuntimeError\<close> outside the \<open>try\<close> when
  the number of elements is not a multiple of the width.
\<close>

definition StringLabelEncoder_forward ::
  "string_label_encoder \<Rightarrow> 32 word list \<Rightarrow> label_error + nat list" where
  "StringLabelEncoder_forward self x =
     (let W = max_word_length self in
      if W = 0 \<or> length x mod W \<noteq> 0 then Inl View_error
      else
        (let rows = view_rows W x;
             result = matching_columns (condition_tensors self) rows
         in if length result = length rows then Inr result
            else Inl (Unseen_labels rows (condition_tensors self))))"

text \<open>
  A batch of labels as the tensor a caller passes: each label packed at the width of the
  encoder, as the vocabulary is.
\<close>

definition encode_labels :: "string_label_encoder \<Rightarrow> string list \<Rightarrow> 32 word list" where
  "encode_labels self labels = concat (map (encode_label (4 * max_word_length self)) labels)"

text \<open>A label numpy stores as it is: it does not end in a NUL byte.\<close>

definition no_trailing_nul :: "string \<Rightarrow> bool" where
  "no_trailing_nul s = (s = [] \<or> last s \<noteq> CHR 0x00)"

subsection \<open>\<open>NumericLabelEncoder\<close>\<close>

text \<open>
  \<open>torch.argmax\<close> along a row: the index of the first maximal value.  The loop keeps the
  best index so far and replaces it only by a strictly greater value.
\<close>

fun argmax_from :: "int list \<Rightarrow> nat \<Rightarrow> nat \<Rightarrow> int \<Rightarrow> nat" where
  "argmax_from [] i best best_value = best"
| "argmax_from (v # vs) i best best_value =
     (if v > best_value then argmax_from vs (i + 1) i v
      else argmax_from vs (i + 1) best best_value)"

definition argmax :: "int list \<Rightarrow> nat" where
  "argmax row = (case row of [] \<Rightarrow> 0 | v # vs \<Rightarrow> argmax_from vs 1 0 v)"

text \<open>\<open>torch.eq(x, self.check_tensor).int()\<close> for one query value: the equality mask.\<close>

definition equality_mask :: "int list \<Rightarrow> int \<Rightarrow> int list" where
  "equality_mask check_tensor q = map (\<lambda>c. if q = c then 1 else 0) check_tensor"

text \<open>
  \<open>NumericLabelEncoder.forward\<close>, on the elements of \<open>x\<close> (\<open>view(-1, 1)\<close> makes every
  element a row).  Tensor elements are given by their integer values.  \<open>argmax\<close> over a
  dimension of size 0 raises \<open>IndexError\<close>.
\<close>

definition NumericLabelEncoder_forward :: "int list \<Rightarrow> int list \<Rightarrow> error + nat list" where
  "NumericLabelEncoder_forward check_tensor x =
     (if check_tensor = [] then Inl IndexError
      else Inr (map (\<lambda>q. argmax (equality_mask check_tensor q)) x))"

text \<open>The 0-based index of the first occurrence of a value in a list.\<close>

definition index_of :: "'a list \<Rightarrow> 'a \<Rightarrow> nat" where
  "index_of xs x = length (takeWhile (\<lambda>y. y \<noteq> x) xs)"

section \<open>Concrete containers, scoring functions and inputs\<close>

text \<open>A container with a given batch size and an empty extra configuration.\<close>

definition example_container :: "int option \<Rightarrow> real container" where
  "example_container bs =
     \<lparr>n_threads = None, batch_size = bs, extra_config = Map.empty, last_iteration = False\<rparr>"

text \<open>
  Three scoring functions: one returns its first argument (an identity transformer, one
  output row per input row), one returns all its arguments flattened, one returns the
  number of rows it was given (it looks at the batch as a whole).
\<close>

definition first_input :: "(real, int, int) scoring" where
  "first_input c args = (case args of [] \<Rightarrow> Inl IndexError | x # _ \<Rightarrow> Inr x)"


definition count_rows :: "(real, int, int) scoring" where
  "count_rows c args =
     (case args of
        [] \<Rightarrow> Inl IndexError
      | x # _ \<Rightarrow>
          (case shape x of
             [] \<Rightarrow> Inl IndexError
           | n # _ \<Rightarrow> Inr \<lparr>shape = [1], data = [int n]\<rparr>))"



definition three_rows :: "int ndarray" where
  "three_rows = column_vector [5, 6, 7]"

definition two_rows :: "int ndarray" where
  "two_rows = column_vector [5, 6]"


text \<open>
  The anomaly detector of the specification's scenario: threshold 0.05, offset 0.5, raw
  scores \<open>[0.1, -0.2]\<close>.  Scores are real numbers here.
\<close>

definition anomaly_container :: "real container" where
  "anomaly_container =
     \<lparr>n_threads = None, batch_size = None,
      extra_config = [IFOREST_THRESHOLD \<mapsto> 5 / 100, OFFSET \<mapsto> 1 / 2],
      last_iteration = False\<rparr>"

definition raw_scores :: "(real, int, real) scoring" where
  "raw_scores c args = Inr \<lparr>shape = [2], data = [1 / 10, - (2 / 10)]\<rparr>"

text \<open>
  An ONNX classifier session with one input and the two outputs of a classifier graph; it
  returns fixed labels and probabilities for two rows.
\<close>

definition classifier_session :: "(int, int) onnx_container" where
  "classifier_session =
     \<lparr>input_names = [''input''],
      output_names = [''label'', ''probabilities''],
      session_run = (\<lambda>requested named_inputs.
         Inr (map (\<lambda>name. if name = ''label'' then \<lparr>shape = [2], data = [1, 0]\<rparr>
                           else \<lparr>shape = [2, 2], data = [10, 90, 80, 20]\<rparr>) requested)),
      is_regression = False,
      is_anomaly_detection = False\<rparr>"

text \<open>A fitted \<open>KNeighborsClassifier\<close> with integer labels and an unsupported metric.\<close>

definition classifier_estimator :: "(unit, unit) kneighbors_estimator" where
  "classifier_estimator =
     \<lparr>classes_attr = [PyInt 0, PyInt 1], metric = ''manhattan'', metric_params = None,
      weights = ''uniform'', fit_X = (), fit_y = (), n_neighbors = 5\<rparr>"

text \<open>
  The vocabulary of the specification's scenario and the encoder built from it: width 12
  bytes, three words a label.
\<close>

definition cities :: "string list" where
  "cities = [''paris'', ''milan'', ''amsterdam'', ''tokyo'']"

definition city_encoder :: string_label_encoder where
  "city_encoder =
     \<lparr>num_columns = 4, max_word_length = 3,
      condition_tensors = [[1953721697, 1633972837, 109], [1634494829, 110, 0],
                           [1769103728, 115, 0], [2037084020, 111, 0]]\<rparr>"

text \<open>
  A vocabulary of two distinct labels that differ by a trailing NUL byte, and the encoder
  built from it: width 4 bytes, one word a label.
\<close>

definition nul_vocabulary :: "string list" where
  "nul_vocabulary = [''a'', [CHR ''a'', CHR 0x00]]"

definition nul_encoder :: string_label_encoder where
  "nul_encoder = \<lparr>num_columns = 2, max_word_length = 1, condition_tensors = [[97], [97]]\<rparr>"

section \<open>The batch execution engine: partitions and results\<close>

declare round_up_to_4.simps [simp del]

lemma slice_rows_range:
  assumes "length (shape a) \<ge> 2" "hd (shape a) = N" "lo \<le> hi" "hi \<le> N"
  shows "slice_rows a (int lo) (int hi) = Inr (rows_between a lo hi)"
proof -
  obtain d ds where sh: "shape a = N # d # ds"
    using assms(1,2) by (cases "shape a"; cases "tl (shape a)") auto
  show ?thesis
    using assms(3,4) by (simp add: slice_rows_def rows_between_def sh slice_index_def Let_def)
qed

lemma slice_all_range:
  assumes "row_count N inputs" "lo \<le> hi" "hi \<le> N"
  shows "slice_all inputs (int lo) (int hi) = Inr (map (\<lambda>a. rows_between a lo hi) inputs)"
  using assms(1)
  by (induction inputs) (simp_all add: row_count_def slice_rows_range[OF _ _ assms(2,3)])

lemma int_div_mod_nat:
  "int N div int B = int (N div B)" "int N mod int B = int (N mod B)"
  by (simp_all add: zdiv_int zmod_int)

lemma partition_count_nat:
  assumes "0 < B"
  shows "partition_count N B = max 1 (N div B + (if N mod B > 0 then 1 else 0))"
proof -
  have c: "\<lceil>real N / real B\<rceil> = - (- int N div int B)"
    using ceiling_divide_eq_div[of "int N" "int B"] by simp
  have "- (- int N div int B) = int (N div B + (if N mod B > 0 then 1 else 0))"
    using assms by (simp add: zdiv_zminus1_eq_if int_div_mod_nat)
  then show ?thesis
    unfolding partition_count_def c by simp
qed

lemma partition_count_eq:
  assumes "0 < B"
  shows "max 1 (int N div int B + (if int N mod int B > 0 then 1 else 0)) = int (partition_count N B)"
proof -
  have "int N div int B + (if int N mod int B > 0 then 1 else 0)
          = int (N div B + (if N mod B > 0 then 1 else 0))"
    by (simp add: int_div_mod_nat)
  then show ?thesis
    unfolding partition_count_nat[OF assms] by (simp add: max_def)
qed

lemma partition_count_pos: "0 < partition_count N B"
  by (simp add: partition_count_def)

lemma partition_start_le:
  assumes "0 < B" "i < partition_count N B"
  shows "i * B \<le> N"
proof (cases "i = 0")
  case True
  then show ?thesis by simp
next
  case False
  then have "i \<le> N div B"
    using assms unfolding partition_count_nat[OF assms(1)] by (auto split: if_splits)
  then have "i * B \<le> (N div B) * B" by simp
  also have "\<dots> \<le> N" by simp
  finally show ?thesis .
qed

lemma partition_count_covers:
  assumes "0 < B"
  shows "N \<le> partition_count N B * B"
proof -
  have "N mod B \<le> (if N mod B > 0 then 1 else 0) * B"
    using mod_less_divisor[OF assms, of N] by (auto intro: less_imp_le)
  moreover have "N = (N div B) * B + N mod B" by simp
  ultimately have "N \<le> (N div B + (if N mod B > 0 then 1 else 0)) * B"
    unfolding add_mult_distrib by linarith
  also have "\<dots> \<le> partition_count N B * B"
    unfolding partition_count_nat[OF assms] by (intro mult_le_mono1) simp
  finally show ?thesis .
qed

lemma batch_loop_run:
  assumes rc: "row_count N inputs" and B: "0 < B"
    and rng: "\<forall>i. j \<le> i \<and> i < k \<longrightarrow> i * B \<le> N"
    and ok: "\<forall>i. j \<le> i \<and> i < k \<longrightarrow>
           function (c\<lparr>last_iteration := (int i = its - 1)\<rparr>) (partition_args inputs B N i) = Inr (outs i)"
  shows "batch_loop function (int B) (int N) its inputs (map int [j..<k]) c calls predictions =
           (if j < k then c\<lparr>last_iteration := (int (k - 1) = its - 1)\<rparr> else c,
            calls @ map (\<lambda>i. (int i = its - 1, partition_args inputs B N i)) [j..<k],
            Inr (predictions @ concat (map (\<lambda>i. data (outs i)) [j..<k])))"
  using rng ok
proof (induction "k - j" arbitrary: j c calls predictions)
  case 0
  then show ?case by simp
next
  case (Suc n)
  then have jk: "j < k" and n: "n = k - Suc j" by auto
  have lo: "j * B \<le> min ((j + 1) * B) N" using Suc.prems(1) jk by simp
  have st: "min (int j * int B + int B) (int N) = int (min ((j + 1) * B) N)"
    by (simp add: min_def algebra_simps flip: of_nat_mult of_nat_add)
  have sl: "slice_all inputs (int j * int B) (min (int j * int B + int B) (int N))
              = Inr (partition_args inputs B N j)"
    unfolding st partition_args_def
    using slice_all_range[OF rc lo, of ] by simp
  have f: "function (c\<lparr>last_iteration := (int j = its - 1)\<rparr>) (partition_args inputs B N j) = Inr (outs j)"
    using Suc.prems(2) jk by simp
  let ?c' = "c\<lparr>last_iteration := (int j = its - 1)\<rparr>"
  have IH: "batch_loop function (int B) (int N) its inputs (map int [Suc j..<k]) ?c'
              (calls @ [(int j = its - 1, partition_args inputs B N j)]) (predictions @ data (outs j)) =
           (if Suc j < k then ?c'\<lparr>last_iteration := (int (k - 1) = its - 1)\<rparr> else ?c',
            (calls @ [(int j = its - 1, partition_args inputs B N j)]) @ map (\<lambda>i. (int i = its - 1, partition_args inputs B N i)) [Suc j..<k],
            Inr ((predictions @ data (outs j)) @ concat (map (\<lambda>i. data (outs i)) [Suc j..<k])))"
    using Suc.prems by (intro Suc.hyps(1)[OF n]) auto
  have last: "\<not> Suc j < k \<Longrightarrow> j = k - 1" using jk by simp
  show ?case
    using jk by (auto simp add: upt_conv_Cons sl f IH Let_def dest: last)
qed

lemma run_batch_partitioned:
  assumes bs: "batch_size c = Some (int B)" and B: "0 < B" and ne: "inputs \<noteq> []"
    and rc: "row_count N inputs" and NB: "N \<noteq> B"
    and ok: "\<forall>i < partition_count N B.
           function (c\<lparr>last_iteration := (i = partition_count N B - 1)\<rparr>)
             (partition_args inputs B N i) = Inr (outs i)"
  shows "SklearnContainer_run_batch_inference c function inputs reshape =
           (c\<lparr>last_iteration := True\<rparr>,
            map (\<lambda>i. (i = partition_count N B - 1, partition_args inputs B N i))
              [0..<partition_count N B],
            (let predictions = concat (map (\<lambda>i. data (outs i)) [0..<partition_count N B])
             in if reshape then reshape_rows N (np_array_ravel predictions)
                else Inr (np_array_ravel predictions)))"
proof -
  define K where "K = partition_count N B"
  have K: "0 < K" unfolding K_def by (rule partition_count_pos)
  obtain x rest where inp: "inputs = x # rest" using ne by (cases inputs) auto
  have "length (shape x) \<ge> 2" "hd (shape x) = N"
    using rc by (simp_all add: inp row_count_def)
  then obtain ds where sh: "shape x = N # ds" by (cases "shape x") auto
  have eqi: "\<And>i. i < K \<Longrightarrow> (int i = int K - 1) = (i = K - 1)" using K by auto
  have loop: "batch_loop function (int B) (int N) (int K) inputs (map int [0..<K]) c [] [] =
           (if 0 < K then c\<lparr>last_iteration := (int (K - 1) = int K - 1)\<rparr> else c,
            [] @ map (\<lambda>i. (int i = int K - 1, partition_args inputs B N i)) [0..<K],
            Inr ([] @ concat (map (\<lambda>i. data (outs i)) [0..<K])))"
  proof (rule batch_loop_run[OF rc B])
    show "\<forall>i. 0 \<le> i \<and> i < K \<longrightarrow> i * B \<le> N"
      using partition_start_le[OF B] by (simp add: K_def)
    show "\<forall>i. 0 \<le> i \<and> i < K \<longrightarrow>
           function (c\<lparr>last_iteration := (int i = int K - 1)\<rparr>) (partition_args inputs B N i) = Inr (outs i)"
      using ok eqi by (simp add: K_def)
  qed
  have calls: "map (\<lambda>i. (int i = int K - 1, partition_args inputs B N i)) [0..<K]
             = map (\<lambda>i. (i = K - 1, partition_args inputs B N i)) [0..<K]"
    using eqi by simp
  have lastc: "(int (K - 1) = int K - 1)" using K by auto
  show ?thesis
    unfolding SklearnContainer_run_batch_inference_def
    using NB B K
    by (simp add: inp sh bs Let_def partition_count_eq[OF B] K_def[symmetric] loop[unfolded inp]
        calls[unfolded inp] lastc)
qed



lemma concat_chunks:
  assumes "\<And>i. i < m \<Longrightarrow> b i \<le> b (Suc i)" and "b 0 = 0"
  shows "concat (map (\<lambda>i. take (b (Suc i) - b i) (drop (b i) xs)) [0..<m]) = take (b m) xs"
  using assms(1)
proof (induction m)
  case 0
  then show ?case by (simp add: assms(2))
next
  case (Suc m)
  have "take (b (Suc m)) xs = take (b m + (b (Suc m) - b m)) xs"
    using Suc.prems[of m] by simp
  also have "\<dots> = take (b m) xs @ take (b (Suc m) - b m) (drop (b m) xs)"
    by (rule take_add)
  finally show ?case using Suc by simp
qed

lemma partition_chunks:
  assumes B: "0 < B" and len: "length full = N * k"
  shows "concat (map (\<lambda>i. take ((min ((i + 1) * B) N - i * B) * k) (drop (i * B * k) full))
            [0..<partition_count N B]) = full"
proof -
  define b where "b i = min (i * B) N * k" for i
  have mono: "\<And>i. b i \<le> b (Suc i)" by (simp add: b_def min_def)
  have eq: "\<And>i. i < partition_count N B \<Longrightarrow>
          take ((min ((i + 1) * B) N - i * B) * k) (drop (i * B * k) full)
          = take (b (Suc i) - b i) (drop (b i) full)"
    using partition_start_le[OF B] by (simp add: b_def diff_mult_distrib min_absorb1)
  have "concat (map (\<lambda>i. take ((min ((i + 1) * B) N - i * B) * k) (drop (i * B * k) full))
            [0..<partition_count N B])
      = concat (map (\<lambda>i. take (b (Suc i) - b i) (drop (b i) full)) [0..<partition_count N B])"
    using eq by (intro arg_cong[where f = concat] map_cong) auto
  also have "\<dots> = take (b (partition_count N B)) full"
    by (rule concat_chunks) (rule mono, simp add: b_def)
  also have "b (partition_count N B) = N * k"
    using partition_count_covers[OF B, of N] by (simp add: b_def min_absorb2)
  finally show ?thesis by (simp add: len)
qed

lemma outcome_simps [simp]:
  "state_of (c, calls, r) = c" "calls_of (c, calls, r) = calls" "result_of (c, calls, r) = r"
  by (simp_all add: state_of_def calls_of_def result_of_def)





text \<open>
  Claim C1, amended.  For a scoring function that scores rows independently, \<open>k\<close> values
  a row, a batch size \<open>B > 0\<close> and inputs of \<open>N > 0\<close> rows, the batched path returns the
  elements of one call on the full input, in the same order.  When \<open>N \<noteq> B\<close> the result has
  shape \<open>(N, k)\<close> under \<open>reshape=True\<close> and is flat under \<open>reshape=False\<close>, whatever shape the
  single call returns; when \<open>N = B\<close> it is the output of the single call.
\<close>

theorem batched_equals_single_call:
  assumes bs: "batch_size c = Some (int B)" and B: "0 < B" and ne: "inputs \<noteq> []"
    and rc: "row_count N inputs" and N: "0 < N"
    and rows: "scores_rows function c inputs N k"
  shows "\<exists>out full.
           result_of (SklearnContainer_run_batch_inference c function inputs reshape) = Inr out \<and>
           function c inputs = Inr full \<and>
           data out = data full \<and>
           shape out = (if N = B then shape full else if reshape then [N, k] else [N * k])"
proof -
  obtain full where full: "function c inputs = Inr full" and len: "length (data full) = N * k"
    using rows unfolding scores_rows_def by (metis le_refl)
  show ?thesis
  proof (cases "N = B")
    case True
    obtain x rest where inp: "inputs = x # rest" using ne by (cases inputs) auto
    have "length (shape x) \<ge> 2" "hd (shape x) = N"
      using rc by (simp_all add: inp row_count_def)
    then obtain ds where sh: "shape x = N # ds" by (cases "shape x") auto
    have "result_of (SklearnContainer_run_batch_inference c function inputs reshape) = Inr full"
      unfolding SklearnContainer_run_batch_inference_def
      using True by (simp add: inp sh bs full[unfolded inp])
    then show ?thesis using full True by simp
  next
    case False
    let ?K = "partition_count N B"
    define outs where
      "outs i = projr (function (c\<lparr>last_iteration := (i = ?K - 1)\<rparr>)
                         (partition_args inputs B N i))" for i
    have part: "function (c\<lparr>last_iteration := (i = ?K - 1)\<rparr>) (partition_args inputs B N i) = Inr (outs i)
           \<and> data (outs i) = take ((min ((i + 1) * B) N - i * B) * k) (drop (i * B * k) (data full))"
      if "i < ?K" for i
    proof -
      have "i * B \<le> min ((i + 1) * B) N" "min ((i + 1) * B) N \<le> N"
        using partition_start_le[OF B that] by simp_all
      then obtain out where
        "function (c\<lparr>last_iteration := (i = ?K - 1)\<rparr>) (partition_args inputs B N i) = Inr out"
        "data out = take ((min ((i + 1) * B) N - i * B) * k) (drop (i * B * k) (data full))"
        using rows full unfolding scores_rows_def partition_args_def
        by (metis sum.inject(2))
      then show ?thesis by (simp add: outs_def)
    qed
    have run: "SklearnContainer_run_batch_inference c function inputs reshape =
           (c\<lparr>last_iteration := True\<rparr>,
            map (\<lambda>i. (i = ?K - 1, partition_args inputs B N i)) [0..<?K],
            (let predictions = concat (map (\<lambda>i. data (outs i)) [0..<?K])
             in if reshape then reshape_rows N (np_array_ravel predictions)
                else Inr (np_array_ravel predictions)))"
      using part by (intro run_batch_partitioned[OF bs B ne rc False]) simp
    have "concat (map (\<lambda>i. data (outs i)) [0..<?K])
          = concat (map (\<lambda>i. take ((min ((i + 1) * B) N - i * B) * k) (drop (i * B * k) (data full))) [0..<?K])"
      using part by (intro arg_cong[where f = concat] map_cong) auto
    also have "\<dots> = data full" by (rule partition_chunks[OF B len])
    finally have preds: "concat (map (\<lambda>i. data (outs i)) [0..<?K]) = data full" .
    show ?thesis
      using False N full
      by (simp add: run preds Let_def reshape_rows_def np_array_ravel_def len)
  qed
qed

text \<open>
  Claim C1 as stated fails: a scoring function that counts the rows of its batch returns
  \<open>[2, 1]\<close> batched and \<open>[3]\<close> at once; and under \<open>reshape=False\<close> the batched output of
  an identity transformer is flat where the single call returns shape \<open>(3, 1)\<close>.
\<close>

theorem batched_counterexample:
  "result_of (SklearnContainer_run_batch_inference (example_container (Some 2)) count_rows
      [three_rows] False) = Inr \<lparr>shape = [2], data = [2, 1]\<rparr> \<and>
   count_rows (example_container (Some 2)) [three_rows] = Inr \<lparr>shape = [1], data = [3]\<rparr> \<and>
   result_of (SklearnContainer_run_batch_inference (example_container (Some 2)) first_input
      [three_rows] False) = Inr \<lparr>shape = [3], data = [5, 6, 7]\<rparr> \<and>
   first_input (example_container (Some 2)) [three_rows] = Inr \<lparr>shape = [3, 1], data = [5, 6, 7]\<rparr>"
  by (simp add: SklearnContainer_run_batch_inference_def example_container_def count_rows_def
        first_input_def three_rows_def column_vector_def np_array_ravel_def upt_rec
        slice_rows_def slice_index_def Let_def)

theorem batched_equals_single_call_witness:
  "result_of (SklearnContainer_run_batch_inference (example_container (Some 2)) first_input
      [three_rows] True) = Inr \<lparr>shape = [3, 1], data = [5, 6, 7]\<rparr>"
proof -
  have rows: "scores_rows first_input (example_container (Some 2)) [three_rows] 3 1"
    by (simp add: scores_rows_def first_input_def rows_between_def three_rows_def
          column_vector_def)
  have "\<exists>out full.
           result_of (SklearnContainer_run_batch_inference (example_container (Some 2))
              first_input [three_rows] True) = Inr out \<and>
           first_input (example_container (Some 2)) [three_rows] = Inr full \<and>
           data out = data full \<and>
           shape out = (if (3::nat) = 2 then shape full else if True then [3, 1] else [3 * 1])"
    by (rule batched_equals_single_call[OF _ _ _ _ _ rows])
       (simp_all add: example_container_def row_count_def three_rows_def column_vector_def)
  then show ?thesis
    by (auto simp: first_input_def three_rows_def column_vector_def)
qed





section \<open>Anomaly detection: thresholds and offsets\<close>

lemma batch_loop_config:
  "extra_config (state_of (batch_loop function bs total_size iterations inputs indices c calls
      predictions)) = extra_config c"
  by (induction indices arbitrary: c calls predictions)
     (auto simp: Let_def split: sum.splits)

lemma state_of_post:
  "state_of (case L of (c', calls, Inl e) \<Rightarrow> (c', calls, Inl e)
                     | (c', calls, Inr p) \<Rightarrow> (c', calls, g p)) = state_of L"
  by (auto simp: state_of_def split: prod.splits sum.splits)

lemma run_batch_config:
  "extra_config (state_of (SklearnContainer_run_batch_inference c function inputs reshape))
     = extra_config c"
  unfolding SklearnContainer_run_batch_inference_def
  by (simp add: Let_def state_of_post batch_loop_config split: list.splits option.splits)

lemma run_config:
  "extra_config (state_of (SklearnContainer_run pandas c function inputs reshape))
     = extra_config c"
  unfolding SklearnContainer_run_def
  by (auto simp: run_batch_config split: sum.splits option.splits)

lemma decision_function_config:
  "extra_config (state_of (decision_function pandas c function inputs)) = extra_config c"
  using run_config[of pandas c "function" inputs False]
  unfolding decision_function_def
  by (auto split: prod.splits sum.splits)

text \<open>
  Claim C7.  \<open>decision_function\<close> returns the raw scores of the underlying run unchanged
  when the extra configuration has no \<open>IFOREST_THRESHOLD\<close>, and every raw score plus the
  configured threshold when it has one.  An exception of the run is passed on.
\<close>

theorem decision_function_threshold:
  "(extra_config c IFOREST_THRESHOLD = None \<longrightarrow>
      result_of (decision_function pandas c function inputs)
        = result_of (SklearnContainer_run pandas c function inputs False)) \<and>
   (\<forall>t. extra_config c IFOREST_THRESHOLD = Some t \<longrightarrow>
      result_of (decision_function pandas c function inputs)
        = map_sum id (\<lambda>scores. add_scalar scores t)
            (result_of (SklearnContainer_run pandas c function inputs False)))"
  using run_config[of pandas c "function" inputs False]
  unfolding decision_function_def
  by (auto split: prod.splits sum.splits)

text \<open>The scenario: raw scores \<open>[0.1, -0.2]\<close>, threshold 0.05; and no threshold.\<close>

lemma raw_run:
  "SklearnContainer_run True (c\<lparr>batch_size := None\<rparr>) raw_scores (Arrays [two_rows]) False
    = (c\<lparr>batch_size := None\<rparr>, [(last_iteration c, [two_rows])],
       Inr \<lparr>shape = [2], data = [1 / 10, - (2 / 10)]\<rparr>)"
  by (simp add: SklearnContainer_run_def split_dataframe_def raw_scores_def)

theorem decision_function_threshold_witness:
  "result_of (decision_function True anomaly_container raw_scores (Arrays [two_rows]))
     = Inr \<lparr>shape = [2], data = [15 / 100, - (15 / 100)]\<rparr> \<and>
   result_of (decision_function True (example_container None) raw_scores (Arrays [two_rows]))
     = Inr \<lparr>shape = [2], data = [1 / 10, - (2 / 10)]\<rparr>"
proof -
  have t: "extra_config anomaly_container IFOREST_THRESHOLD = Some (5 / 100)"
    by (simp add: anomaly_container_def IFOREST_THRESHOLD_def OFFSET_def)
  have n: "extra_config (example_container None) IFOREST_THRESHOLD = None"
    by (simp add: example_container_def)
  have r1: "result_of (SklearnContainer_run True anomaly_container raw_scores (Arrays [two_rows]) False)
         = Inr \<lparr>shape = [2], data = [1 / 10, - (2 / 10)]\<rparr>"
    using raw_run[of anomaly_container] by (simp add: anomaly_container_def)
  have r2: "result_of (SklearnContainer_run True (example_container None) raw_scores (Arrays [two_rows]) False)
         = Inr \<lparr>shape = [2], data = [1 / 10, - (2 / 10)]\<rparr>"
    using raw_run[of "example_container None"] by (simp add: example_container_def)
  have "result_of (decision_function True anomaly_container raw_scores (Arrays [two_rows]))
          = map_sum id (\<lambda>scores. add_scalar scores (5 / 100))
              (result_of (SklearnContainer_run True anomaly_container raw_scores
                 (Arrays [two_rows]) False))"
    using decision_function_threshold[of anomaly_container True raw_scores "Arrays [two_rows]"] t
    by blast
  moreover have "result_of (decision_function True (example_container None) raw_scores
                    (Arrays [two_rows]))
          = result_of (SklearnContainer_run True (example_container None) raw_scores
              (Arrays [two_rows]) False)"
    using decision_function_threshold[of "example_container None" True raw_scores
        "Arrays [two_rows]"] n
    by blast
  ultimately show ?thesis
    by (simp add: r1 r2 add_scalar_def)
qed

text \<open>
  Claim C6.  With an \<open>OFFSET\<close> in the extra configuration, \<open>score_samples\<close> is
  \<open>decision_function\<close> plus the offset; without one it fails: with the exception of
  \<open>decision_function\<close>, or else with \<open>KeyError\<close>.
\<close>

theorem score_samples_offset:
  "(\<forall>off. extra_config c OFFSET = Some off \<longrightarrow>
      result_of (score_samples pandas c function inputs)
        = map_sum id (\<lambda>scores. add_scalar scores off)
            (result_of (decision_function pandas c function inputs))) \<and>
   (extra_config c OFFSET = None \<longrightarrow>
      result_of (score_samples pandas c function inputs)
        = (case result_of (decision_function pandas c function inputs) of
             Inl e \<Rightarrow> Inl e
           | Inr scores \<Rightarrow> Inl (KeyError OFFSET)))"
  using decision_function_config[of pandas c "function" inputs]
  unfolding score_samples_def
  by (auto split: prod.splits sum.splits)

text \<open>The scenario: offset 0.5 on top of the threshold; and no offset.\<close>

theorem score_samples_offset_witness:
  "result_of (score_samples True anomaly_container raw_scores (Arrays [two_rows]))
     = Inr \<lparr>shape = [2], data = [65 / 100, 35 / 100]\<rparr> \<and>
   result_of (score_samples True (example_container None) raw_scores (Arrays [two_rows]))
     = Inl (KeyError OFFSET)"
proof -
  have o: "extra_config anomaly_container OFFSET = Some (1 / 2)"
    by (simp add: anomaly_container_def)
  have n: "extra_config (example_container None) OFFSET = None"
    by (simp add: example_container_def)
  have d1: "result_of (decision_function True anomaly_container raw_scores (Arrays [two_rows]))
     = Inr \<lparr>shape = [2], data = [15 / 100, - (15 / 100)]\<rparr>"
    by (simp add: decision_function_def SklearnContainer_run_def split_dataframe_def
          raw_scores_def anomaly_container_def IFOREST_THRESHOLD_def OFFSET_def add_scalar_def)
  have d2: "result_of (decision_function True (example_container None) raw_scores (Arrays [two_rows]))
     = Inr \<lparr>shape = [2], data = [1 / 10, - (2 / 10)]\<rparr>"
    by (simp add: decision_function_def SklearnContainer_run_def split_dataframe_def
          raw_scores_def example_container_def)
  have "result_of (score_samples True anomaly_container raw_scores (Arrays [two_rows]))
          = map_sum id (\<lambda>scores. add_scalar scores (1 / 2))
              (result_of (decision_function True anomaly_container raw_scores (Arrays [two_rows])))"
    using score_samples_offset[of anomaly_container True raw_scores "Arrays [two_rows]"] o
    by blast
  moreover have "result_of (score_samples True (example_container None) raw_scores (Arrays [two_rows]))
          = (case result_of (decision_function True (example_container None) raw_scores
                     (Arrays [two_rows])) of
               Inl e \<Rightarrow> Inl e
             | Inr scores \<Rightarrow> Inl (KeyError OFFSET))"
    using score_samples_offset[of "example_container None" True raw_scores "Arrays [two_rows]"] n
    by blast
  ultimately show ?thesis
    by (simp add: d1 d2 add_scalar_def)
qed

section \<open>The ONNX containers: the number of declared outputs\<close>

text \<open>
  Claim C8.  \<open>_transform\<close> requires exactly one declared output name; \<open>_predict\<close> of a
  container that is not a regressor (a classifier or an anomaly detector),
  \<open>_predict_proba\<close> and \<open>_decision_function\<close> require exactly two.  With any other count
  the call fails with the \<open>AssertionError\<close> of that assertion (in \<open>_predict\<close>, where the
  inputs are named first, with the exception of \<open>_get_named_inputs\<close> if that raises).
  With the matching count the primitive is what it is without the assertion.
\<close>

theorem onnx_output_count:
  "(length (output_names self) \<noteq> 1 \<longrightarrow>
      ONNX_transform self inputs = Inl (AssertionError one_output)) \<and>
   (length (output_names self) = 1 \<longrightarrow>
      ONNX_transform self inputs
        = named_then self inputs (output_names self) (\<lambda>outs. Inr (np_array_stack outs))) \<and>
   (\<not> is_regression self \<and> length (output_names self) \<noteq> 2 \<longrightarrow>
      ONNX_predict self inputs
        = (case get_named_inputs (input_names self) inputs of
             Inl e \<Rightarrow> Inl e
           | Inr named_inputs \<Rightarrow> Inl (AssertionError two_outputs))) \<and>
   (\<not> is_regression self \<and> length (output_names self) = 2 \<longrightarrow>
      ONNX_predict self inputs
        = named_then self inputs [output_names self ! 0]
            (\<lambda>outs. if is_anomaly_detection self
                     then then_ravel (first_subarray (np_array_stack outs))
                     else first_subarray (np_array_stack outs))) \<and>
   (length (output_names self) \<noteq> 2 \<longrightarrow>
      ONNX_predict_proba self inputs = Inl (AssertionError two_outputs) \<and>
      ONNX_decision_function self inputs = Inl (AssertionError two_outputs)) \<and>
   (length (output_names self) = 2 \<longrightarrow>
      ONNX_predict_proba self inputs
        = named_then self inputs [output_names self ! 1] first_output \<and>
      ONNX_decision_function self inputs
        = named_then self inputs [output_names self ! 1] (\<lambda>outs. then_ravel (first_output outs)))"
  by (auto simp: ONNX_transform_def ONNX_predict_def ONNX_predict_proba_def
        ONNX_decision_function_def named_then_def then_ravel_def
      split: sum.splits)

text \<open>A classifier session with two outputs: \<open>_transform\<close> fails, the others run.\<close>

theorem onnx_output_count_witness:
  "ONNX_transform classifier_session [two_rows] = Inl (AssertionError one_output) \<and>
   ONNX_predict classifier_session [two_rows] = Inr \<lparr>shape = [2], data = [1, 0]\<rparr> \<and>
   ONNX_predict_proba classifier_session [two_rows] = Inr \<lparr>shape = [2, 2], data = [10, 90, 80, 20]\<rparr> \<and>
   ONNX_predict_proba (classifier_session\<lparr>output_names := [''label'']\<rparr>) [two_rows]
     = Inl (AssertionError two_outputs)"
proof -
  have two: "length (output_names classifier_session) = 2"
    and one: "length (output_names (classifier_session\<lparr>output_names := [''label'']\<rparr>)) \<noteq> 2"
    and cls: "\<not> is_regression classifier_session"
    by (simp_all add: classifier_session_def)
  have "ONNX_transform classifier_session [two_rows] = Inl (AssertionError one_output)"
    using onnx_output_count[of classifier_session "[two_rows]"] two by simp
  moreover have "ONNX_predict classifier_session [two_rows]
      = named_then classifier_session [two_rows] [output_names classifier_session ! 0]
            (\<lambda>outs. if is_anomaly_detection classifier_session
                     then then_ravel (first_subarray (np_array_stack outs))
                     else first_subarray (np_array_stack outs))"
    using onnx_output_count[of classifier_session "[two_rows]"] two cls by blast
  moreover have "ONNX_predict_proba classifier_session [two_rows]
      = named_then classifier_session [two_rows] [output_names classifier_session ! 1] first_output"
    using onnx_output_count[of classifier_session "[two_rows]"] two by blast
  moreover have "ONNX_predict_proba (classifier_session\<lparr>output_names := [''label'']\<rparr>) [two_rows]
      = Inl (AssertionError two_outputs)"
    using onnx_output_count[of "classifier_session\<lparr>output_names := [''label'']\<rparr>" "[two_rows]"] one
    by blast
  ultimately show ?thesis
    by (simp add: named_then_def get_named_inputs_def classifier_session_def first_output_def
          first_subarray_def np_array_stack_def subarray_def)
qed

section \<open>The k-nearest-neighbour converter: unsupported parameters\<close>

text \<open>
  Claim C9, amended.  Once the batch size is configured and, for a classifier, the labels
  are integers: a metric other than \<open>minkowski\<close> and \<open>euclidean\<close>, or weights other than
  \<open>uniform\<close> and \<open>distance\<close>, make the conversion fail with \<open>NotImplementedError\<close>; for a
  classifier the message is the fixed text that names the supported values.  With a
  supported metric and supported weights the conversion returns a model.
\<close>

theorem kneighbors_unsupported_parameters:
  assumes "config BATCH_SIZE = Some batch"
    and "is_classifier \<longrightarrow> list_all is_integer_label (classes_attr raw_operator)"
  shows "(metric raw_operator \<notin> {''minkowski'', ''euclidean''} \<or>
          weights raw_operator \<notin> {''uniform'', ''distance''} \<longrightarrow>
            (\<exists>message.
               convert_kneighbors_model BATCH_SIZE raw_operator device config is_classifier
                 = Inl (NotImplementedError message) \<and>
               (is_classifier \<longrightarrow>
                  message = (if metric raw_operator \<notin> {''minkowski'', ''euclidean''}
                             then metric_message True else weights_message True)))) \<and>
         (metric raw_operator \<in> {''minkowski'', ''euclidean''} \<and>
          weights raw_operator \<in> {''uniform'', ''distance''} \<longrightarrow>
            (\<exists>model. convert_kneighbors_model BATCH_SIZE raw_operator device config is_classifier
              = Inr model))"
  using assms
  by (auto simp: convert_kneighbors_model_def Let_def)

theorem kneighbors_unsupported_parameters_witness:
  "(\<exists>message.
      convert_kneighbors_model ''batch_size''
        (classifier_estimator\<lparr>metric := ''euclidean'', weights := ''custom''\<rparr>) ''cpu''
        [''batch_size'' \<mapsto> 10] True = Inl (NotImplementedError message) \<and>
      message = weights_message True) \<and>
   (\<exists>model.
      convert_kneighbors_model ''batch_size'' (classifier_estimator\<lparr>metric := ''euclidean''\<rparr>)
        ''cpu'' [''batch_size'' \<mapsto> 10] True = Inr model)"
proof -
  let ?config = "[''batch_size'' \<mapsto> 10 :: int]"
  have cfg: "?config ''batch_size'' = Some 10" by simp
  have a: "True \<longrightarrow> list_all is_integer_label
             (classes_attr (classifier_estimator\<lparr>metric := ''euclidean'', weights := ''custom''\<rparr>))"
    and b: "True \<longrightarrow> list_all is_integer_label
             (classes_attr (classifier_estimator\<lparr>metric := ''euclidean''\<rparr>))"
    by (simp_all add: classifier_estimator_def)
  show ?thesis
    using
      kneighbors_unsupported_parameters[where config = "?config" and BATCH_SIZE = "''batch_size''"
        and batch = 10 and is_classifier = True and device = "''cpu''"
        and raw_operator = "classifier_estimator\<lparr>metric := ''euclidean'', weights := ''custom''\<rparr>",
        OF cfg a]
      kneighbors_unsupported_parameters[where config = "?config" and BATCH_SIZE = "''batch_size''"
        and batch = 10 and is_classifier = True and device = "''cpu''"
        and raw_operator = "classifier_estimator\<lparr>metric := ''euclidean''\<rparr>",
        OF cfg b]
    by (simp add: classifier_estimator_def)
qed

text \<open>
  Claim C9 as stated fails: the message for the metric \<open>manhattan\<close> does not name it.
\<close>

theorem kneighbors_counterexample:
  "convert_kneighbors_model ''batch_size'' classifier_estimator ''cpu'' [''batch_size'' \<mapsto> 10] True
     = Inl (NotImplementedError (metric_message True)) \<and>
   \<not> names_value (metric_message True) (metric classifier_estimator)"
proof -
  have "\<not> names_value (metric_message True) ''manhattan''"
    by code_simp
  then show ?thesis
    by (simp add: convert_kneighbors_model_def classifier_estimator_def)
qed

section \<open>The numeric label encoder\<close>

lemma equality_mask_simps [simp]:
  "equality_mask [] q = []"
  "equality_mask (c # cs) q = (if q = c then 1 else 0) # equality_mask cs q"
  by (simp_all add: equality_mask_def)

lemma argmax_from_found:
  "argmax_from (equality_mask cs q) i best 1 = best"
  by (induction cs arbitrary: i) simp_all

lemma argmax_from_mask:
  "argmax_from (equality_mask cs q) i best 0
     = (if q \<in> set cs then i + index_of cs q else best)"
  by (induction cs arbitrary: i best) (auto simp: argmax_from_found index_of_def)

lemma argmax_mask:
  "argmax (equality_mask cs q) = (if q \<in> set cs then index_of cs q else 0)"
  by (cases cs) (auto simp: argmax_def argmax_from_found argmax_from_mask index_of_def)

lemma index_of_first:
  assumes "x \<in> set xs"
  shows "index_of xs x < length xs \<and> xs ! index_of xs x = x \<and>
         (\<forall>j < index_of xs x. xs ! j \<noteq> x)"
  using assms
proof (induction xs)
  case Nil
  then show ?case by simp
next
  case (Cons y ys)
  show ?case
  proof (cases "y = x")
    case True
    then show ?thesis by (simp add: index_of_def)
  next
    case False
    then have i: "index_of (y # ys) x = Suc (index_of ys x)"
      by (simp add: index_of_def)
    have "x \<in> set ys" using Cons.prems False by simp
    from Cons.IH[OF this] False show ?thesis
      unfolding i by (auto simp: nth_Cons split: nat.splits)
  qed
qed

text \<open>
  Claim C5.  On a non-empty class tensor, \<open>forward\<close> returns for every query value the
  index of the maximum of its equality mask against the stored classes; for a value
  among the classes this is the first (lowest) index at which the class equals it.
\<close>

theorem numeric_forward_first_match:
  assumes "check_tensor \<noteq> []"
  shows "NumericLabelEncoder_forward check_tensor x
           = Inr (map (\<lambda>q. argmax (equality_mask check_tensor q)) x) \<and>
         (\<forall>q \<in> set check_tensor.
            argmax (equality_mask check_tensor q) < length check_tensor \<and>
            check_tensor ! argmax (equality_mask check_tensor q) = q \<and>
            (\<forall>j < argmax (equality_mask check_tensor q). check_tensor ! j \<noteq> q))"
  using assms index_of_first[of _ check_tensor]
  by (auto simp: NumericLabelEncoder_forward_def argmax_mask)

text \<open>The scenario: classes \<open>[0, 1, 2]\<close>, queries \<open>[[1], [0], [2]]\<close>.\<close>

theorem numeric_forward_first_match_witness:
  "NumericLabelEncoder_forward [0, 1, 2] [1, 0, 2] = Inr [1, 0, 2]"
  using numeric_forward_first_match[of "[0, 1, 2]" "[1, 0, 2]"]
  by (simp add: argmax_def)

text \<open>
  Claim C10.  On a non-empty class tensor, a query value that equals no stored class
  gets index 0 and no exception is raised: the result is the one the batch gives with
  the first class in that row.
\<close>

theorem numeric_forward_unseen:
  assumes "check_tensor \<noteq> []" and "i < length x" and "x ! i \<notin> set check_tensor"
  shows "\<exists>result.
           NumericLabelEncoder_forward check_tensor x = Inr result \<and>
           length result = length x \<and>
           result ! i = 0 \<and>
           NumericLabelEncoder_forward check_tensor (x[i := hd check_tensor]) = Inr result"
proof -
  let ?f = "\<lambda>q. argmax (equality_mask check_tensor q)"
  have hd: "?f (hd check_tensor) = 0"
    unfolding argmax_mask using assms(1) by (cases check_tensor) (simp_all add: index_of_def)
  have i: "map ?f x ! i = 0"
    using assms(2,3) by (simp add: argmax_mask)
  have "map ?f (x[i := hd check_tensor]) = (map ?f x)[i := 0]"
    by (simp add: map_update hd)
  also have "\<dots> = map ?f x"
    using i by (metis list_update_id)
  finally show ?thesis
    using assms(1) i by (simp add: NumericLabelEncoder_forward_def)
qed

text \<open>The value 7 among the classes \<open>[0, 1, 2]\<close> is answered like the class 0.\<close>

theorem numeric_forward_unseen_witness:
  "NumericLabelEncoder_forward [0, 1, 2] [7] = Inr [0] \<and>
   NumericLabelEncoder_forward [0, 1, 2] [0] = Inr [0]"
proof -
  have "\<exists>result.
           NumericLabelEncoder_forward [0, 1, 2] [7] = Inr result \<and>
           length result = length [7 :: int] \<and>
           result ! 0 = 0 \<and>
           NumericLabelEncoder_forward [0, 1, 2] ([7][0 := hd [0, 1, 2]]) = Inr result"
    by (rule numeric_forward_unseen) simp_all
  then show ?thesis
    by (auto simp: length_Suc_conv)
qed

section \<open>The string label encoder\<close>

subsection \<open>Packing is injective\<close>

lemma round_up_to_4_bounds: "m \<le> round_up_to_4 m \<and> round_up_to_4 m mod 4 = 0"
proof (induction m rule: round_up_to_4.induct)
  case (1 m)
  have eq: "round_up_to_4 m = (if m mod 4 \<noteq> 0 then round_up_to_4 (m + 1) else m)"
    by (rule round_up_to_4.simps)
  show ?case
  proof (cases "m mod 4 = 0")
    case True
    then show ?thesis by (simp add: eq)
  next
    case False
    with 1 show ?thesis by (simp add: eq)
  qed
qed

lemma fold_max_upper: "a \<le> fold max xs a \<and> (\<forall>x \<in> set xs. x \<le> fold max xs (a::nat))"
proof (induction xs arbitrary: a)
  case Nil
  then show ?case by simp
next
  case (Cons x xs)
  have "max x a \<le> fold max xs (max x a)" "\<forall>y \<in> set xs. y \<le> fold max xs (max x a)"
    using Cons.IH[of "max x a"] by simp_all
  then show ?case by auto
qed

lemma digit_unique:
  assumes "(a::nat) < 256" "a' < 256" "a + 256 * r = a' + 256 * r'"
  shows "a = a' \<and> r = r'"
proof -
  have "a = (a + 256 * r) mod 256" using assms(1) by simp
  also have "\<dots> = (a' + 256 * r') mod 256" by (simp only: assms(3))
  also have "\<dots> = a'" using assms(2) by simp
  finally have "a = a'" .
  with assms(3) show ?thesis by simp
qed

lemma four_digits_bound:
  "\<lbrakk>(a::nat) < 256; b < 256; c < 256; d < 256\<rbrakk>
   \<Longrightarrow> a + 256 * (b + 256 * (c + 256 * d)) < 2 ^ 32"
  by simp

lemma word32_of_nat_inj:
  "\<lbrakk>(word_of_nat n :: 32 word) = word_of_nat n'; n < 2 ^ 32; n' < 2 ^ 32\<rbrakk> \<Longrightarrow> n = n'"
  by (simp add: word_of_nat_eq_iff take_bit_nat_eq_self)

lemma int32_of_bytes_nat:
  "int32_of_bytes [a, b, c, d]
     = word_of_nat (of_char a + 256 * (of_char b + 256 * (of_char c + 256 * of_char d)))"
  by (simp add: int32_of_bytes_def)

lemma int32_of_bytes_inj:
  assumes "int32_of_bytes [a, b, c, d] = int32_of_bytes [a', b', c', d']"
  shows "a = a' \<and> b = b' \<and> c = c' \<and> d = d'"
proof -
  let ?n = "\<lambda>a b c d. (of_char a + 256 * (of_char b + 256 * (of_char c + 256 * of_char d)) :: nat)"
  have bound: "?n a b c d < 2 ^ 32" for a b c d
    by (rule four_digits_bound) simp_all
  have "(word_of_nat (?n a b c d) :: 32 word) = word_of_nat (?n a' b' c' d')"
    using assms by (simp only: int32_of_bytes_nat)
  then have eq: "?n a b c d = ?n a' b' c' d'"
    by (rule word32_of_nat_inj) (rule bound)+
  have 1: "(of_char a :: nat) = of_char a' \<and>
      (of_char b + 256 * (of_char c + 256 * of_char d) :: nat) = of_char b' + 256 * (of_char c' + 256 * of_char d')"
    by (rule digit_unique[OF _ _ eq]) simp_all
  have 2: "(of_char b :: nat) = of_char b' \<and>
      (of_char c + 256 * of_char d :: nat) = of_char c' + 256 * of_char d'"
    by (rule digit_unique[OF _ _ conjunct2[OF 1]]) simp_all
  have 3: "(of_char c :: nat) = of_char c' \<and> (of_char d :: nat) = of_char d'"
    by (rule digit_unique[OF _ _ conjunct2[OF 2]]) simp_all
  show ?thesis using 1 2 3 by simp
qed

lemma length_view_int32: "length (view_int32 bs) = length bs div 4"
  by (induction bs rule: view_int32.induct) simp_all

lemma view_int32_inj:
  "\<lbrakk>length xs = length ys; length xs mod 4 = 0; view_int32 xs = view_int32 ys\<rbrakk> \<Longrightarrow> xs = ys"
proof (induction xs arbitrary: ys rule: view_int32.induct)
  case (1 a b c d rest)
  then obtain a' b' c' d' rest' where ys: "ys = a' # b' # c' # d' # rest'"
    by (auto simp: length_Suc_conv dest!: sym[of "Suc _" "length _"])
  have "int32_of_bytes [a, b, c, d] = int32_of_bytes [a', b', c', d']"
    and "view_int32 rest = view_int32 rest'"
    using "1.prems"(3) by (simp_all add: ys)
  moreover have "length rest = length rest'" "length rest mod 4 = 0"
    using "1.prems"(1,2) by (simp_all add: ys)
  ultimately show ?case
    using "1.IH"[of rest'] int32_of_bytes_inj by (simp add: ys)
qed simp_all

lemma length_pad_bytes: "length (pad_bytes L s) = L"
  by (simp add: pad_bytes_def)

lemma append_replicate_longer:
  assumes "s @ replicate a z = t @ replicate b z" and "length s \<le> length t"
  shows "t = s @ replicate (length t - length s) z"
proof -
  have len: "length s + a = length t + b"
    using arg_cong[OF assms(1), of length] by simp
  have "t = take (length t) (t @ replicate b z)" by simp
  also have "\<dots> = take (length t) (s @ replicate a z)" by (simp only: assms(1))
  also have "\<dots> = s @ replicate (length t - length s) z"
  proof -
    have "length t - length s \<le> a" using len by linarith
    then show ?thesis using assms(2) by (simp add: min_absorb1)
  qed
  finally show ?thesis .
qed

lemma pad_bytes_inj_le:
  assumes "length s \<le> length t" "length t \<le> L" "no_trailing_nul t"
    and "pad_bytes L s = pad_bytes L t"
  shows "s = t"
proof -
  have "s @ replicate (L - length s) (CHR 0x00) = t @ replicate (L - length t) (CHR 0x00)"
    using assms by (simp add: pad_bytes_def)
  from append_replicate_longer[OF this assms(1)]
  have t: "t = s @ replicate (length t - length s) (CHR 0x00)" .
  show ?thesis
  proof (cases "length t = length s")
    case True
    with t show ?thesis by simp
  next
    case False
    then have "length t - length s > 0" using assms(1) by simp
    then have "t \<noteq> [] \<and> last t = CHR 0x00"
      by (subst t, subst (2) t) (auto simp: last_append)
    with assms(3) show ?thesis by (simp add: no_trailing_nul_def)
  qed
qed

lemma pad_bytes_inj:
  assumes "length s \<le> L" "length t \<le> L" "no_trailing_nul s" "no_trailing_nul t"
    and "pad_bytes L s = pad_bytes L t"
  shows "s = t"
proof (cases "length s \<le> length t")
  case True
  then show ?thesis using pad_bytes_inj_le[of s t L] assms by simp
next
  case False
  then have "length t \<le> length s" by simp
  then show ?thesis using pad_bytes_inj_le[of t s L] assms by simp
qed

lemma length_encode_label: "length (encode_label L s) = L div 4"
  by (simp add: encode_label_def length_view_int32 length_pad_bytes)

lemma encode_label_inj:
  assumes "L mod 4 = 0" "length s \<le> L" "length t \<le> L" "no_trailing_nul s" "no_trailing_nul t"
    and "encode_label L s = encode_label L t"
  shows "s = t"
proof -
  have "pad_bytes L s = pad_bytes L t"
    using assms(1,6) unfolding encode_label_def
    by (intro view_int32_inj) (simp_all add: length_pad_bytes)
  then show ?thesis using assms pad_bytes_inj by blast
qed

subsection \<open>Rows of a tensor and matching columns\<close>

lemma drop_concat_uniform:
  assumes "\<forall>r \<in> set rows. length r = W"
  shows "drop (i * W) (concat rows) = concat (drop i rows)"
  using assms
proof (induction rows arbitrary: i)
  case Nil
  then show ?case by simp
next
  case (Cons r rows)
  show ?case
  proof (cases i)
    case 0
    then show ?thesis by simp
  next
    case (Suc j)
    then show ?thesis using Cons by simp
  qed
qed

lemma view_rows_concat:
  assumes "\<forall>r \<in> set rows. length r = W" and "0 < W"
  shows "view_rows W (concat rows) = rows"
proof -
  have len: "length (concat rows) = length rows * W"
    using assms(1) by (induction rows) simp_all
  have nth: "take W (drop (i * W) (concat rows)) = rows ! i" if lt: "i < length rows" for i
  proof -
    have d: "drop i rows = rows ! i # drop (Suc i) rows"
      using lt by (simp add: Cons_nth_drop_Suc)
    have "length (rows ! i) = W" using assms(1) lt by simp
    then show ?thesis
      by (simp add: drop_concat_uniform[OF assms(1)] d)
  qed
  have n: "length (concat rows) div W = length rows"
    using assms(2) by (simp add: len)
  show ?thesis
  proof (rule nth_equalityI)
    show "length (view_rows W (concat rows)) = length rows"
      by (simp add: view_rows_def n)
  next
    fix i
    assume "i < length (view_rows W (concat rows))"
    then have "i < length rows" by (simp add: view_rows_def n)
    then show "view_rows W (concat rows) ! i = rows ! i"
      by (simp add: view_rows_def n nth)
  qed
qed

lemma matching_one:
  assumes "distinct ts"
  shows "filter (\<lambda>j. ts ! j = q) [0..<length ts] = (if q \<in> set ts then [index_of ts q] else [])"
  using assms
proof (induction ts rule: rev_induct)
  case Nil
  then show ?case by simp
next
  case (snoc t ts)
  have f: "filter (\<lambda>j. (ts @ [t]) ! j = q) [0..<length ts] = filter (\<lambda>j. ts ! j = q) [0..<length ts]"
    by (rule filter_cong) (simp_all add: nth_append)
  have IH: "filter (\<lambda>j. ts ! j = q) [0..<length ts] = (if q \<in> set ts then [index_of ts q] else [])"
    using snoc by simp
  show ?case
  proof (cases "q \<in> set ts")
    case True
    then have "t \<noteq> q" using snoc.prems by auto
    moreover have "index_of (ts @ [t]) q = index_of ts q"
      using True by (simp add: index_of_def takeWhile_append1)
    ultimately show ?thesis using True by (simp add: f IH)
  next
    case False
    then have "takeWhile (\<lambda>y. y \<noteq> q) (ts @ [q]) = ts"
      by (subst takeWhile_append2) auto
    then have "index_of (ts @ [t]) q = length ts" if "t = q"
      using that by (simp add: index_of_def)
    then show ?thesis using False by (auto simp: f IH)
  qed
qed

lemma matching_columns_distinct:
  assumes "distinct ts"
  shows "matching_columns ts rows = map (index_of ts) (filter (\<lambda>q. q \<in> set ts) rows)"
  unfolding matching_columns_def
  by (induction rows) (simp_all add: matching_one[OF assms])

lemma index_of_map:
  assumes "inj_on f (insert q (set xs))"
  shows "index_of (map f xs) (f q) = index_of xs q"
proof -
  have "takeWhile (\<lambda>y. y \<noteq> f q) (map f xs) = map f (takeWhile (\<lambda>x. f x \<noteq> f q) xs)"
    by (simp add: takeWhile_map o_def)
  also have "takeWhile (\<lambda>x. f x \<noteq> f q) xs = takeWhile (\<lambda>x. x \<noteq> q) xs"
    using assms by (intro takeWhile_cong) (auto simp: inj_on_def)
  finally show ?thesis by (simp add: index_of_def)
qed

lemma init_facts:
  assumes "StringLabelEncoder_init classes = Inr enc"
  shows "0 < max_word_length enc"
    and "condition_tensors enc
           = map (encode_label (4 * max_word_length enc)) (sorted_list_of_set (set classes))"
    and "\<forall>c \<in> set classes. length c \<le> 4 * max_word_length enc"
proof -
  obtain cat cats where cl: "classes = cat # cats"
    using assms by (cases classes) (simp_all add: StringLabelEncoder_init_def)
  define width where "width = round_up_to_4 (fold max (map length cats) (length cat))"
  have w0: "width \<noteq> 0"
    using assms by (auto simp: StringLabelEncoder_init_def cl width_def Let_def split: if_splits)
  have enc: "enc = \<lparr>num_columns = length classes, max_word_length = width div 4,
                     condition_tensors = map (encode_label width) (sorted_list_of_set (set classes))\<rparr>"
    using assms w0 by (simp add: StringLabelEncoder_init_def cl width_def Let_def)
  have w4: "width mod 4 = 0" and ge: "fold max (map length cats) (length cat) \<le> width"
    using round_up_to_4_bounds[of "fold max (map length cats) (length cat)"]
    by (simp_all add: width_def)
  have W: "4 * max_word_length enc = width"
    using w4 mult_div_mod_eq[of 4 width] by (simp add: enc)
  show "0 < max_word_length enc" using w0 W by (cases "max_word_length enc") simp_all
  show "condition_tensors enc
           = map (encode_label (4 * max_word_length enc)) (sorted_list_of_set (set classes))"
    unfolding W by (simp add: enc)
  show "\<forall>c \<in> set classes. length c \<le> 4 * max_word_length enc"
    unfolding W using fold_max_upper[of "length cat" "map length cats"] ge
    by (auto simp: cl)
qed

subsection \<open>Lookup\<close>

lemma forward_rows:
  assumes W: "0 < max_word_length enc" and rows: "\<forall>r \<in> set rows. length r = max_word_length enc"
    and d: "distinct (condition_tensors enc)"
  shows "StringLabelEncoder_forward enc (concat rows)
           = (if set rows \<subseteq> set (condition_tensors enc)
              then Inr (map (index_of (condition_tensors enc)) rows)
              else Inl (Unseen_labels rows (condition_tensors enc)))"
proof -
  let ?ts = "condition_tensors enc"
  have len: "length (concat rows) = length rows * max_word_length enc"
    using rows by (induction rows) simp_all
  have v: "view_rows (max_word_length enc) (concat rows) = rows"
    by (rule view_rows_concat[OF rows W])
  have m: "matching_columns ?ts rows = map (index_of ?ts) (filter (\<lambda>q. q \<in> set ?ts) rows)"
    by (rule matching_columns_distinct[OF d])
  show ?thesis
  proof (cases "set rows \<subseteq> set ?ts")
    case True
    then have "filter (\<lambda>q. q \<in> set ?ts) rows = rows"
      by (intro filter_True) auto
    then show ?thesis
      using W True by (simp add: StringLabelEncoder_forward_def Let_def len v m)
  next
    case False
    then obtain r where "r \<in> set rows" "r \<notin> set ?ts" by auto
    then have "length (filter (\<lambda>q. q \<in> set ?ts) rows) < length rows"
      by (rule length_filter_less)
    then show ?thesis
      using W False by (simp add: StringLabelEncoder_forward_def Let_def len v m)
  qed
qed

text \<open>
  Claim C4, amended.  For the encoder built from a vocabulary whose labels do not end in
  a NUL byte (the byte the packing pads with): a batch of labels drawn from the
  vocabulary is mapped to the indices of the labels in the sorted list of the distinct
  labels, where each label has exactly one index; and a batch with a label outside the
  vocabulary (packed at the encoder's width), or any batch of rows with a row that is no
  row of the stored tensor, makes \<open>forward\<close> raise the \<open>ValueError\<close> that carries the input
  and the stored vocabulary tensor.
\<close>

theorem string_forward_lookup:
  assumes init: "StringLabelEncoder_init classes = Inr enc"
    and nul: "list_all no_trailing_nul classes"
  shows "(set labels \<subseteq> set classes \<longrightarrow>
            StringLabelEncoder_forward enc (encode_labels enc labels)
              = Inr (map (index_of (sorted_list_of_set (set classes))) labels)) \<and>
         (\<forall>q \<in> set classes.
            index_of (sorted_list_of_set (set classes)) q < length (sorted_list_of_set (set classes)) \<and>
            sorted_list_of_set (set classes) ! index_of (sorted_list_of_set (set classes)) q = q) \<and>
         sorted (sorted_list_of_set (set classes)) \<and>
         distinct (sorted_list_of_set (set classes)) \<and>
         (list_all (\<lambda>q. length q \<le> 4 * max_word_length enc \<and> no_trailing_nul q) labels \<and>
          \<not> set labels \<subseteq> set classes \<longrightarrow>
            StringLabelEncoder_forward enc (encode_labels enc labels)
              = Inl (Unseen_labels (map (encode_label (4 * max_word_length enc)) labels)
                       (condition_tensors enc))) \<and>
         (list_all (\<lambda>r. length r = max_word_length enc) rows \<and>
          \<not> set rows \<subseteq> set (condition_tensors enc) \<longrightarrow>
            StringLabelEncoder_forward enc (concat rows)
              = Inl (Unseen_labels rows (condition_tensors enc)))"
proof -
  let ?W = "max_word_length enc"
  let ?L = "4 * ?W"
  let ?V = "sorted_list_of_set (set classes)"
  let ?e = "encode_label ?L"
  define S where "S = {s. length s \<le> ?L \<and> no_trailing_nul s}"
  note facts = init_facts[OF init]
  have W: "0 < ?W" by (rule facts(1))
  have ts: "condition_tensors enc = map ?e ?V" by (rule facts(2))
  have setV: "set ?V = set classes" by simp
  have cS: "set classes \<subseteq> S"
    using facts(3) nul by (auto simp: S_def list_all_iff)
  have inj: "inj_on ?e S"
  proof (rule inj_onI)
    fix s t
    assume "s \<in> S" "t \<in> S" "?e s = ?e t"
    then show "s = t"
      using encode_label_inj[of ?L s t] by (simp add: S_def)
  qed
  have "inj_on ?e (set ?V)"
    using cS by (intro inj_on_subset[OF inj]) simp
  then have d: "distinct (condition_tensors enc)"
    unfolding ts by (simp add: distinct_map)
  have rowlen: "\<forall>r \<in> set (map ?e labels). length r = ?W" for labels
    by (simp add: length_encode_label)
  have fwd: "StringLabelEncoder_forward enc (encode_labels enc labels)
           = (if set (map ?e labels) \<subseteq> set (condition_tensors enc)
              then Inr (map (index_of (condition_tensors enc)) (map ?e labels))
              else Inl (Unseen_labels (map ?e labels) (condition_tensors enc)))" for labels
    unfolding encode_labels_def by (rule forward_rows[OF W rowlen d])
  have idx: "index_of (condition_tensors enc) (?e q) = index_of ?V q" if qS: "q \<in> S" for q
  proof -
    have "insert q (set ?V) \<subseteq> S" using cS qS by simp
    then have "inj_on ?e (insert q (set ?V))" by (rule inj_on_subset[OF inj])
    then show ?thesis unfolding ts by (rule index_of_map)
  qed
  have hit: "StringLabelEncoder_forward enc (encode_labels enc labels) = Inr (map (index_of ?V) labels)"
    if sub: "set labels \<subseteq> set classes"
  proof -
    have "set (map ?e labels) \<subseteq> set (condition_tensors enc)"
      using sub by (auto simp: ts)
    moreover have "map (index_of (condition_tensors enc)) (map ?e labels) = map (index_of ?V) labels"
      using sub cS idx by auto
    ultimately show ?thesis by (simp add: fwd)
  qed
  have miss: "StringLabelEncoder_forward enc (encode_labels enc labels)
              = Inl (Unseen_labels (map ?e labels) (condition_tensors enc))"
    if ok: "list_all (\<lambda>q. length q \<le> ?L \<and> no_trailing_nul q) labels"
      and nsub: "\<not> set labels \<subseteq> set classes"
  proof -
    obtain q where q: "q \<in> set labels" "q \<notin> set classes" using nsub by auto
    have qS: "q \<in> S" using ok q(1) by (auto simp: S_def list_all_iff)
    have "?e q \<notin> set (condition_tensors enc)"
    proof
      assume "?e q \<in> set (condition_tensors enc)"
      then obtain c where c: "c \<in> set classes" "?e q = ?e c" by (auto simp: ts)
      then have "q = c" using inj qS cS by (auto dest: inj_onD)
      with q(2) c(1) show False by simp
    qed
    then have "\<not> set (map ?e labels) \<subseteq> set (condition_tensors enc)"
      using q(1) by auto
    then show ?thesis by (simp add: fwd)
  qed
  have rows: "StringLabelEncoder_forward enc (concat rows)
              = Inl (Unseen_labels rows (condition_tensors enc))"
    if "list_all (\<lambda>r. length r = ?W) rows" "\<not> set rows \<subseteq> set (condition_tensors enc)"
    using that forward_rows[OF W _ d, of rows] by (simp add: list_all_iff)
  have index: "\<forall>q \<in> set classes. index_of ?V q < length ?V \<and> ?V ! index_of ?V q = q"
    using index_of_first[of _ ?V] by simp
  show ?thesis
    using hit miss rows index by simp
qed

subsection \<open>The scenario of the specification\<close>

lemma replicate_small:
  "replicate 2 x = [x, x]"
  "replicate 3 x = [x, x, x]"
  "replicate 7 x = [x, x, x, x, x, x, x]"
  "replicate 8 x = [x, x, x, x, x, x, x, x]"
  by (simp_all add: eval_nat_numeral)

lemma city_words:
  "encode_label 12 ''amsterdam'' = [1953721697, 1633972837, 109]"
  "encode_label 12 ''milan'' = [1634494829, 110, 0]"
  "encode_label 12 ''paris'' = [1769103728, 115, 0]"
  "encode_label 12 ''tokyo'' = [2037084020, 111, 0]"
  by (simp_all add: encode_label_def pad_bytes_def int32_of_bytes_def replicate_small)

lemma sorted_cities:
  "sorted_list_of_set (set cities) = [''amsterdam'', ''milan'', ''paris'', ''tokyo'']"
  by code_simp

lemma city_width: "round_up_to_4 9 = 12"
  by (simp add: round_up_to_4.simps)

lemma init_cities: "StringLabelEncoder_init cities = Inr city_encoder"
proof -
  have "fold max (map length (tl cities)) (length (hd cities)) = 9"
    by (simp add: cities_def)
  then have w: "round_up_to_4 (fold max (map length (tl cities)) (length (hd cities))) = 12"
    by (simp only: city_width)
  have "StringLabelEncoder_init cities
          = Inr \<lparr>num_columns = length cities, max_word_length = 12 div 4,
                 condition_tensors = map (encode_label 12) (sorted_list_of_set (set cities))\<rparr>"
    using w unfolding StringLabelEncoder_init_def
    by (simp add: cities_def Let_def del: set_simps)
  then show ?thesis
    unfolding sorted_cities by (simp add: city_words city_encoder_def cities_def)
qed

text \<open>\<open>paris\<close> has index 2 in the sorted vocabulary; \<open>rome\<close> is not in it.\<close>

theorem string_forward_lookup_witness:
  "StringLabelEncoder_init cities = Inr city_encoder \<and>
   StringLabelEncoder_forward city_encoder (encode_labels city_encoder [''paris'']) = Inr [2] \<and>
   StringLabelEncoder_forward city_encoder (encode_labels city_encoder [''rome''])
     = Inl (Unseen_labels [[1701670770, 0, 0]] (condition_tensors city_encoder))"
proof -
  have nul: "list_all no_trailing_nul cities"
    by (simp add: cities_def no_trailing_nul_def)
  note lookup = string_forward_lookup[OF init_cities nul]
  have "set [''paris''] \<subseteq> set cities"
    by (simp add: cities_def)
  with lookup[where labels = "[''paris'']"]
  have "StringLabelEncoder_forward city_encoder (encode_labels city_encoder [''paris''])
          = Inr (map (index_of (sorted_list_of_set (set cities))) [''paris''])"
    by blast
  then have hit: "StringLabelEncoder_forward city_encoder (encode_labels city_encoder [''paris''])
          = Inr [2]"
    unfolding sorted_cities by (simp add: index_of_def)
  have w: "4 * max_word_length city_encoder = 12"
    by (simp add: city_encoder_def)
  have "list_all (\<lambda>q. length q \<le> 4 * max_word_length city_encoder \<and> no_trailing_nul q) [''rome''] \<and>
        \<not> set [''rome''] \<subseteq> set cities"
    by (simp add: cities_def city_encoder_def no_trailing_nul_def)
  with lookup[where labels = "[''rome'']"]
  have "StringLabelEncoder_forward city_encoder (encode_labels city_encoder [''rome''])
          = Inl (Unseen_labels (map (encode_label (4 * max_word_length city_encoder)) [''rome''])
                   (condition_tensors city_encoder))"
    by blast
  moreover have "encode_label 12 ''rome'' = [1701670770, 0, 0]"
    by (simp add: encode_label_def pad_bytes_def int32_of_bytes_def replicate_small)
  ultimately have miss: "StringLabelEncoder_forward city_encoder (encode_labels city_encoder [''rome''])
          = Inl (Unseen_labels [[1701670770, 0, 0]] (condition_tensors city_encoder))"
    unfolding w by simp
  show ?thesis
    using init_cities hit miss by (intro conjI)
qed

text \<open>
  Claim C4 as stated fails: numpy pads with NUL bytes, so the labels \<open>a\<close> and \<open>a\<close> followed
  by a NUL byte are two entries of the sorted vocabulary with the same packed row.  The
  query \<open>a\<close>, drawn from the vocabulary, then matches two rows, and \<open>forward\<close> raises.
\<close>

theorem string_forward_counterexample:
  "StringLabelEncoder_init nul_vocabulary = Inr nul_encoder \<and>
   ''a'' \<in> set nul_vocabulary \<and>
   StringLabelEncoder_forward nul_encoder (encode_labels nul_encoder [''a''])
     = Inl (Unseen_labels [[97]] [[97], [97]])"
proof -
  have len: "fold max (map length (tl nul_vocabulary)) (length (hd nul_vocabulary)) = 2"
    by (simp add: nul_vocabulary_def)
  have "round_up_to_4 2 = 4"
    by (simp add: round_up_to_4.simps)
  with len have w: "round_up_to_4 (fold max (map length (tl nul_vocabulary))
                      (length (hd nul_vocabulary))) = 4"
    by simp
  have sorted_v: "sorted_list_of_set (set nul_vocabulary) = [''a'', [CHR ''a'', CHR 0x00]]"
    by code_simp
  have words: "encode_label 4 ''a'' = [97]" "encode_label 4 [CHR ''a'', CHR 0x00] = [97]"
    by (simp_all add: encode_label_def pad_bytes_def int32_of_bytes_def replicate_small)
  have "StringLabelEncoder_init nul_vocabulary
          = Inr \<lparr>num_columns = length nul_vocabulary, max_word_length = 4 div 4,
                 condition_tensors = map (encode_label 4) (sorted_list_of_set (set nul_vocabulary))\<rparr>"
    using w unfolding StringLabelEncoder_init_def
    by (simp add: nul_vocabulary_def Let_def del: set_simps)
  then have init: "StringLabelEncoder_init nul_vocabulary = Inr nul_encoder"
    unfolding sorted_v by (simp add: words nul_encoder_def nul_vocabulary_def)
  have fwd: "StringLabelEncoder_forward nul_encoder (encode_labels nul_encoder [''a''])
     = Inl (Unseen_labels [[97]] [[97], [97]])"
    by (simp add: StringLabelEncoder_forward_def encode_labels_def nul_encoder_def words
          view_rows_def matching_columns_def upt_rec Let_def)
  have "''a'' \<in> set nul_vocabulary"
    by (simp add: nul_vocabulary_def)
  with init fwd show ?thesis by simp
qed

end
